theory Spec2Isabelle
  imports Main "HOL-Library.AList"
begin

section \<open>Data model (src/types/index.ts)\<close>

text \<open>
  \<^verbatim>\<open>FetchType\<close> and the platform tag are string unions in the source and become
  datatypes. \<^verbatim>\<open>ScheduleConfig\<close> becomes a record; its optional members
  (\<^verbatim>\<open>createdBy?\<close>, \<^verbatim>\<open>discord?\<close>, \<^verbatim>\<open>telegram?\<close>, \<^verbatim>\<open>guildId?\<close>,
  \<^verbatim>\<open>username?\<close>) are options. The field \<^verbatim>\<open>id\<close> is named \<open>idS\<close> because
  \<open>id\<close> is the identity function of HOL. \<^verbatim>\<open>createdAt\<close> is a millisecond
  timestamp, a natural number.
\<close>

datatype FetchType = Artist | Nft

datatype Platform = Discord | Telegram

record Creator =
  platform :: Platform
  userId :: string
  username :: "string option"

record DiscordTarget =
  channelId :: string
  guildId :: "string option"

record TelegramTarget =
  chatId :: string

record ScheduleConfig =
  idS :: string
  name :: string
  cronExpression :: string
  enabled :: bool
  fetchType :: FetchType
  createdAt :: nat
  createdBy :: "Creator option"
  discord :: "DiscordTarget option"
  telegram :: "TelegramTarget option"

subsection \<open>JavaScript primitives the code relies on\<close>

text \<open>A string is truthy in JavaScript exactly when it is not empty.\<close>

definition truthy :: "string \<Rightarrow> bool" where
  "truthy s = (s \<noteq> [])"

text \<open>An optional string (\<^verbatim>\<open>string | undefined\<close>) is truthy when it is present and
  not empty.\<close>

definition truthy_opt :: "string option \<Rightarrow> bool" where
  "truthy_opt x = (case x of None \<Rightarrow> False | Some s \<Rightarrow> truthy s)"

text \<open>
  \<^verbatim>\<open>Number.prototype.toString\<close> on a non-negative integer (the timestamps of
  \<^verbatim>\<open>Date.now()\<close> and the random suffix): its decimal digits.
\<close>

definition digit_char :: "nat \<Rightarrow> char" where
  "digit_char d = (''0123456789'' ! d)"

fun Number_toString :: "nat \<Rightarrow> string" where
  "Number_toString n =
     (if n < 10 then [digit_char n]
      else Number_toString (n div 10) @ [digit_char (n mod 10)])"

declare Number_toString.simps [simp del]

definition Platform_toString :: "Platform \<Rightarrow> string" where
  "Platform_toString p = (case p of Discord \<Rightarrow> ''discord'' | Telegram \<Rightarrow> ''telegram'')"

text \<open>\<^verbatim>\<open>Array.prototype.findIndex\<close>: the first index whose element satisfies the
  predicate; \<open>None\<close> stands for the source's \<open>-1\<close>.\<close>

fun findIndex :: "('a \<Rightarrow> bool) \<Rightarrow> 'a list \<Rightarrow> nat option" where
  "findIndex P [] = None"
| "findIndex P (x # xs) = (if P x then Some 0 else map_option Suc (findIndex P xs))"

section \<open>The schedule store (class ScheduleManager, src/utils/schedule-manager.ts)\<close>

text \<open>
  The state of a \<^verbatim>\<open>ScheduleManager\<close> is its private array \<^verbatim>\<open>schedules\<close>.
  \<^verbatim>\<open>saveSchedules()\<close> writes that whole array to \<^verbatim>\<open>schedules.json\<close> after every
  mutation and catches its own I/O errors, so the persisted list is the array at the last
  successful write; the model observes the array. Every operation takes the array and
  returns its result together with the new array.

  \<^verbatim>\<open>Date.now()\<close> is read from a parameter \<open>clock\<close>: \<open>clock k\<close> is the value of
  the \<open>k\<close>-th reading made during the call (counting from 0).
\<close>

type_synonym Store = "ScheduleConfig list"

definition getSchedule :: "Store \<Rightarrow> string \<Rightarrow> ScheduleConfig option" where
  "getSchedule schedules i = find (\<lambda>schedule. idS schedule = i) schedules"

definition getDiscordChannelSchedules ::
    "Store \<Rightarrow> string \<Rightarrow> string option \<Rightarrow> ScheduleConfig list" where
  "getDiscordChannelSchedules schedules chan guild =
     (let channelIdStr = chan;
          guildIdStr = (case guild of None \<Rightarrow> None
                        | Some g \<Rightarrow> if truthy g then Some g else None)
      in filter (\<lambda>schedule.
           let scheduleChannelId =
                 (case discord schedule of None \<Rightarrow> []
                  | Some d \<Rightarrow> if truthy (channelId d) then channelId d else []);
               scheduleGuildId =
                 (case discord schedule of None \<Rightarrow> None
                  | Some d \<Rightarrow> (case guildId d of None \<Rightarrow> None
                              | Some g \<Rightarrow> if truthy g then Some g else None))
           in scheduleChannelId = channelIdStr \<and>
              (guildIdStr = None \<or> scheduleGuildId = guildIdStr \<or> scheduleGuildId = None))
         schedules)"

definition getTelegramChatSchedules :: "Store \<Rightarrow> string \<Rightarrow> ScheduleConfig list" where
  "getTelegramChatSchedules schedules chat =
     filter (\<lambda>schedule. case telegram schedule of None \<Rightarrow> False
                          | Some t \<Rightarrow> chatId t = chat) schedules"

text \<open>
  \<^verbatim>\<open>addSchedule\<close>: an empty id is replaced by the clock reading as a string, a zero
  \<^verbatim>\<open>createdAt\<close> by the (next) clock reading; the record is pushed at the end. There is
  no check that the id is new.
\<close>

definition addSchedule ::
    "(nat \<Rightarrow> nat) \<Rightarrow> Store \<Rightarrow> ScheduleConfig \<Rightarrow> ScheduleConfig \<times> Store" where
  "addSchedule clock schedules schedule =
     (let (s1, k) = (if \<not> truthy (idS schedule)
                     then (schedule\<lparr>idS := Number_toString (clock 0)\<rparr>, Suc 0)
                     else (schedule, 0));
          s2 = (if createdAt s1 = 0 then s1\<lparr>createdAt := clock k\<rparr> else s1)
      in (s2, schedules @ [s2]))"

text \<open>
  \<^verbatim>\<open>updateSchedule\<close>: \<open>None\<close> is the source's \<^verbatim>\<open>null\<close>. The payload takes the
  place of the first record with its id, after \<^verbatim>\<open>createdAt\<close> and \<^verbatim>\<open>createdBy\<close>
  have been copied into it from that record.
\<close>

definition updateSchedule :: "Store \<Rightarrow> ScheduleConfig \<Rightarrow> ScheduleConfig option \<times> Store" where
  "updateSchedule schedules updatedSchedule =
     (case findIndex (\<lambda>s. idS s = idS updatedSchedule) schedules of
        None \<Rightarrow> (None, schedules)
      | Some index \<Rightarrow>
          (let u = updatedSchedule\<lparr>createdAt := createdAt (schedules ! index),
                                    createdBy := createdBy (schedules ! index)\<rparr>
           in (Some u, schedules[index := u])))"

definition deleteSchedule :: "Store \<Rightarrow> string \<Rightarrow> bool \<times> Store" where
  "deleteSchedule schedules i =
     (let initialLength = length schedules;
          schedules' = filter (\<lambda>s. idS s \<noteq> i) schedules
      in (length schedules' \<noteq> initialLength, schedules'))"

definition canUserManageSchedule ::
    "Store \<Rightarrow> string \<Rightarrow> Platform \<Rightarrow> string \<Rightarrow> bool \<Rightarrow> bool" where
  "canUserManageSchedule schedules scheduleId plat user isAdmin =
     (case getSchedule schedules scheduleId of
        None \<Rightarrow> False
      | Some schedule \<Rightarrow>
          if isAdmin then True
          else (case createdBy schedule of
                  None \<Rightarrow> False
                | Some c \<Rightarrow> platform c = plat \<and> userId c = user))"

definition getAllSchedules :: "Store \<Rightarrow> ScheduleConfig list" where
  "getAllSchedules schedules = schedules"

definition getEnabledSchedules :: "Store \<Rightarrow> ScheduleConfig list" where
  "getEnabledSchedules schedules = filter enabled schedules"

text \<open>
  \<^verbatim>\<open>createUserSchedule\<close>. The arguments are the members of the request object, in the
  order of the source; \<open>rnd\<close> is the value of
  \<^verbatim>\<open>Math.floor(Math.random() * 1000)\<close>. The id is read from the clock first, then
  \<^verbatim>\<open>createdAt\<close>; \<^verbatim>\<open>addSchedule\<close> gets the readings after these two.
\<close>

definition createUserSchedule ::
    "(nat \<Rightarrow> nat) \<Rightarrow> nat \<Rightarrow> Store \<Rightarrow> string \<Rightarrow> FetchType \<Rightarrow> string \<Rightarrow> Platform \<Rightarrow>
     string option \<Rightarrow> string option \<Rightarrow> string option \<Rightarrow> string \<Rightarrow> string option \<Rightarrow>
     ScheduleConfig \<times> Store" where
  "createUserSchedule clock rnd schedules nm ft cron plat chan guild chat user uname =
     (let newSchedule =
            \<lparr> idS = Platform_toString plat @ ''-'' @ Number_toString (clock 0) @ ''-'' @
                    Number_toString rnd,
              name = nm,
              cronExpression = cron,
              enabled = True,
              fetchType = ft,
              createdAt = clock 1,
              createdBy = Some \<lparr> platform = plat, userId = user, username = uname \<rparr>,
              discord = None,
              telegram = None \<rparr>;
          withTarget =
            (if plat = Discord \<and> truthy_opt chan
             then newSchedule\<lparr>discord := Some \<lparr> channelId = the chan, guildId = guild \<rparr>\<rparr>
             else if plat = Telegram \<and> truthy_opt chat
             then newSchedule\<lparr>telegram := Some \<lparr> chatId = the chat \<rparr>\<rparr>
             else newSchedule)
      in addSchedule (\<lambda>k. clock (k + 2)) schedules withTarget)"

section \<open>The execution engine (class SchedulerService)\<close>

text \<open>
  The engine keeps \<^verbatim>\<open>scheduledTasks\<close>, a \<^verbatim>\<open>Map\<close> from schedule id to the task object
  that \<^verbatim>\<open>cron.schedule\<close> returned, and the two optional senders (only their presence
  matters here). The map is an association list in insertion order, read with
  \<^const>\<open>map_of\<close>, written with \<^const>\<open>AList.update\<close> and \<^const>\<open>AList.delete\<close>.

  The timers themselves live in the node-cron library, outside the repository. What the
  engine uses of it is modelled by two fields: \<open>cronRunning\<close>, the tasks that have been
  started and not stopped (the live timers), and \<open>cronNext\<close>, the identity the next task
  object gets. A task records the expression and the schedule its callback closes over,
  as a value: later changes made to that object elsewhere are not followed.
  \<^verbatim>\<open>cron.schedule\<close> throws on an expression the library rejects; which expressions
  those are is the parameter \<open>cronValid\<close>.
\<close>

record ScheduledTask =
  handle :: nat
  pattern :: string
  job :: ScheduleConfig

record SchedulerService =
  scheduledTasks :: "(string \<times> ScheduledTask) list"
  discordSender :: bool
  telegramSender :: bool
  cronRunning :: "ScheduledTask list"
  cronNext :: nat

definition newSchedulerService :: SchedulerService where
  "newSchedulerService =
     \<lparr> scheduledTasks = [], discordSender = False, telegramSender = False,
       cronRunning = [], cronNext = 0 \<rparr>"

definition setDiscordSender :: "SchedulerService \<Rightarrow> SchedulerService" where
  "setDiscordSender e = e\<lparr>discordSender := True\<rparr>"

definition setTelegramSender :: "SchedulerService \<Rightarrow> SchedulerService" where
  "setTelegramSender e = e\<lparr>telegramSender := True\<rparr>"

text \<open>\<^verbatim>\<open>cron.schedule(expression, callback)\<close>: \<open>None\<close> when it throws, otherwise the new
  task, which is running.\<close>

definition cron_schedule ::
    "(string \<Rightarrow> bool) \<Rightarrow> SchedulerService \<Rightarrow> ScheduleConfig \<Rightarrow>
     (ScheduledTask \<times> SchedulerService) option" where
  "cron_schedule cronValid e schedule =
     (if cronValid (cronExpression schedule)
      then (let task = \<lparr> handle = cronNext e, pattern = cronExpression schedule,
                          job = schedule \<rparr>
            in Some (task, e\<lparr>cronRunning := cronRunning e @ [task],
                             cronNext := Suc (cronNext e)\<rparr>))
      else None)"

text \<open>\<^verbatim>\<open>task.stop()\<close>: the task object with this identity no longer fires.\<close>

definition task_stop :: "SchedulerService \<Rightarrow> ScheduledTask \<Rightarrow> SchedulerService" where
  "task_stop e task = e\<lparr>cronRunning := filter (\<lambda>t. handle t \<noteq> handle task) (cronRunning e)\<rparr>"

text \<open>The guard of \<^verbatim>\<open>addSchedule\<close> on the two destination blocks.\<close>

definition noValidTargets :: "ScheduleConfig \<Rightarrow> bool" where
  "noValidTargets schedule =
     ((case discord schedule of None \<Rightarrow> True
       | Some d \<Rightarrow> \<not> truthy (channelId d) \<or> channelId d = []) \<and>
      (case telegram schedule of None \<Rightarrow> True
       | Some t \<Rightarrow> \<not> truthy (chatId t) \<or> chatId t = []))"

text \<open>
  \<^verbatim>\<open>SchedulerService.addSchedule\<close> (the store has a method of the same name, hence the
  prefix). The three early returns and the caught exception of \<^verbatim>\<open>cron.schedule\<close> all
  leave the engine as it was. The method does not read \<^verbatim>\<open>schedule.enabled\<close>.
\<close>

definition SchedulerService_addSchedule ::
    "(string \<Rightarrow> bool) \<Rightarrow> SchedulerService \<Rightarrow> ScheduleConfig \<Rightarrow> SchedulerService" where
  "SchedulerService_addSchedule cronValid e schedule =
     (if map_of (scheduledTasks e) (idS schedule) \<noteq> None then e
      else if \<not> discordSender e \<and> \<not> telegramSender e then e
      else if noValidTargets schedule then e
      else (case cron_schedule cronValid e schedule of
              None \<Rightarrow> e
            | Some (task, e') \<Rightarrow>
                e'\<lparr>scheduledTasks := AList.update (idS schedule) task (scheduledTasks e')\<rparr>))"

definition addScheduledTasks ::
    "(string \<Rightarrow> bool) \<Rightarrow> SchedulerService \<Rightarrow> ScheduleConfig list \<Rightarrow> SchedulerService" where
  "addScheduledTasks cronValid e schedules =
     (let enabledSchedules = filter enabled schedules
      in fold (\<lambda>schedule e'. SchedulerService_addSchedule cronValid e' schedule)
           enabledSchedules e)"

definition removeSchedule :: "SchedulerService \<Rightarrow> string \<Rightarrow> bool \<times> SchedulerService" where
  "removeSchedule e scheduleId =
     (case map_of (scheduledTasks e) scheduleId of
        Some task \<Rightarrow>
          (True, (task_stop e task)\<lparr>scheduledTasks := AList.delete scheduleId (scheduledTasks e)\<rparr>)
      | None \<Rightarrow> (False, e))"

definition SchedulerService_updateSchedule ::
    "(string \<Rightarrow> bool) \<Rightarrow> SchedulerService \<Rightarrow> ScheduleConfig \<Rightarrow> SchedulerService" where
  "SchedulerService_updateSchedule cronValid e schedule =
     (let e1 = snd (removeSchedule e (idS schedule))
      in if enabled schedule then SchedulerService_addSchedule cronValid e1 schedule else e1)"

definition stopAllTasks :: "SchedulerService \<Rightarrow> SchedulerService" where
  "stopAllTasks e =
     (fold (\<lambda>(i, task) e'. task_stop e' task) (scheduledTasks e) e)\<lparr>scheduledTasks := []\<rparr>"

text \<open>
  The public operations as a datatype, and the state they reach from a new engine.
\<close>

datatype EngineOp =
    SetDiscordSender
  | SetTelegramSender
  | AddScheduledTasks "ScheduleConfig list"
  | AddSchedule ScheduleConfig
  | UpdateSchedule ScheduleConfig
  | RemoveSchedule string
  | StopAllTasks

fun engine_step :: "(string \<Rightarrow> bool) \<Rightarrow> EngineOp \<Rightarrow> SchedulerService \<Rightarrow> SchedulerService" where
  "engine_step cv SetDiscordSender e = setDiscordSender e"
| "engine_step cv SetTelegramSender e = setTelegramSender e"
| "engine_step cv (AddScheduledTasks ss) e = addScheduledTasks cv e ss"
| "engine_step cv (AddSchedule s) e = SchedulerService_addSchedule cv e s"
| "engine_step cv (UpdateSchedule s) e = SchedulerService_updateSchedule cv e s"
| "engine_step cv (RemoveSchedule i) e = snd (removeSchedule e i)"
| "engine_step cv StopAllTasks e = stopAllTasks e"

definition engine_run :: "(string \<Rightarrow> bool) \<Rightarrow> EngineOp list \<Rightarrow> SchedulerService" where
  "engine_run cv ops = fold (engine_step cv) ops newSchedulerService"

text \<open>The live timers that fire a schedule id.\<close>

definition liveTimers :: "SchedulerService \<Rightarrow> string \<Rightarrow> ScheduledTask list" where
  "liveTimers e i = filter (\<lambda>t. idS (job t) = i) (cronRunning e)"

text \<open>\<^verbatim>\<open>addSchedule\<close> called \<open>n\<close> times in a row with the same schedule.\<close>

fun addSchedule_times ::
    "nat \<Rightarrow> (string \<Rightarrow> bool) \<Rightarrow> SchedulerService \<Rightarrow> ScheduleConfig \<Rightarrow> SchedulerService" where
  "addSchedule_times 0 cv e s = e"
| "addSchedule_times (Suc n) cv e s = addSchedule_times n cv (SchedulerService_addSchedule cv e s) s"

text \<open>
  The update of the engine in the words of the specification: the removal, followed by
  \<^verbatim>\<open>addSchedule\<close> only if the schedule is enabled.
\<close>

definition update_as_specified ::
    "(string \<Rightarrow> bool) \<Rightarrow> SchedulerService \<Rightarrow> ScheduleConfig \<Rightarrow> SchedulerService" where
  "update_as_specified cv e s =
     (if enabled s
      then SchedulerService_addSchedule cv (snd (removeSchedule e (idS s))) s
      else snd (removeSchedule e (idS s)))"

text \<open>
  What holds of every engine state: each tracked task is live and fires the schedule id
  it is filed under, each live timer is the tracked task of its schedule id, and task
  identities are not shared.
\<close>

definition engine_inv :: "SchedulerService \<Rightarrow> bool" where
  "engine_inv e =
     (distinct (map fst (scheduledTasks e)) \<and>
      distinct (map handle (cronRunning e)) \<and>
      list_all (\<lambda>t. handle t < cronNext e) (cronRunning e) \<and>
      list_all (\<lambda>(i, t). idS (job t) = i \<and> t \<in> set (cronRunning e)) (scheduledTasks e) \<and>
      list_all (\<lambda>t. map_of (scheduledTasks e) (idS (job t)) = Some t) (cronRunning e))"

definition all_enabled :: "SchedulerService \<Rightarrow> bool" where
  "all_enabled e =
     (list_all (\<lambda>(i, t). enabled (job t)) (scheduledTasks e) \<and>
      list_all (\<lambda>t. enabled (job t)) (cronRunning e))"

text \<open>A sequence of operations in which \<^verbatim>\<open>addSchedule\<close> is only given enabled
  schedules, as every caller in the repository does.\<close>

definition adds_enabled_only :: "EngineOp list \<Rightarrow> bool" where
  "adds_enabled_only ops =
     list_all (\<lambda>op. case op of AddSchedule s \<Rightarrow> enabled s | _ \<Rightarrow> True) ops"

section \<open>The Telegram command layer (src/telegram/commands/schedule.ts)\<close>

text \<open>
  Text is a list of 8-bit characters. \<open>isSpace\<close> is the class \<^verbatim>\<open>\s\<close> of JavaScript's
  regular expressions on that range (tab, line feed, vertical tab, form feed, carriage
  return, space, no-break space), \<open>isDigit\<close> the class \<^verbatim>\<open>\d\<close>. \<open>toLowerCase\<close>
  lowers the letters A to Z; the handler compares its result with ASCII words only.
  \<open>parseInt\<close> is the decimal value of a string of digits.
\<close>

definition isSpace :: "char \<Rightarrow> bool" where
  "isSpace c = (c \<in> set [CHR 0x09, CHR 0x0A, CHR 0x0B, CHR 0x0C, CHR 0x0D, CHR 0x20, CHR 0xA0])"

definition isDigit :: "char \<Rightarrow> bool" where
  "isDigit c = (c \<in> set ''0123456789'')"

definition toLowerCase :: "string \<Rightarrow> string" where
  "toLowerCase s =
     map (\<lambda>c. case map_of (zip ''ABCDEFGHIJKLMNOPQRSTUVWXYZ'' ''abcdefghijklmnopqrstuvwxyz'') c of
                 Some l \<Rightarrow> l | None \<Rightarrow> c) s"

definition parseInt :: "string \<Rightarrow> nat" where
  "parseInt ds =
     foldl (\<lambda>a c. 10 * a + (case map_of (zip ''0123456789'' [0, 1, 2, 3, 4, 5, 6, 7, 8, 9]) c of
                               Some d \<Rightarrow> d | None \<Rightarrow> 0)) 0 ds"

text \<open>\<^verbatim>\<open>toString()\<close> of a chat or user id, an integer that may be negative.\<close>

definition Int_toString :: "int \<Rightarrow> string" where
  "Int_toString i =
     (if i < 0 then CHR ''-'' # Number_toString (nat (- i)) else Number_toString (nat i))"

text \<open>
  \<^verbatim>\<open>parseCommandArguments\<close> collects the matches of
  \<^verbatim>\<open>/"([^"]+)"|(\S+)/g\<close> from left to right: at a double quote (character 0x22) that
  is followed by one or more other characters and a closing quote, the text between the
  quotes; otherwise, at a character that is not white space, the longest run of such
  characters; white space is skipped.
\<close>

function parseCommandArguments :: "string \<Rightarrow> string list" where
  "parseCommandArguments [] = []"
| "parseCommandArguments (c # cs) =
     (if c = CHR 0x22 \<and> takeWhile (\<lambda>x. x \<noteq> CHR 0x22) cs \<noteq> [] \<and>
         dropWhile (\<lambda>x. x \<noteq> CHR 0x22) cs \<noteq> []
      then takeWhile (\<lambda>x. x \<noteq> CHR 0x22) cs #
           parseCommandArguments (tl (dropWhile (\<lambda>x. x \<noteq> CHR 0x22) cs))
      else if isSpace c then parseCommandArguments cs
      else (c # takeWhile (\<lambda>x. \<not> isSpace x) cs) #
           parseCommandArguments (dropWhile (\<lambda>x. \<not> isSpace x) cs))"
  by pat_completeness auto
termination
proof (relation "measure length")
  show "wf (measure length)" by simp
next
  fix c :: char and cs :: string
  have "length (tl (dropWhile (\<lambda>x. x \<noteq> CHR 0x22) cs)) \<le> length cs"
    using length_dropWhile_le [of "\<lambda>x. x \<noteq> CHR 0x22" cs] by simp
  then show "(tl (dropWhile (\<lambda>x. x \<noteq> CHR 0x22) cs), c # cs) \<in> measure length"
    by simp
next
  fix c :: char and cs :: string
  show "(cs, c # cs) \<in> measure length" by simp
next
  fix c :: char and cs :: string
  have "length (dropWhile (\<lambda>x. \<not> isSpace x) cs) \<le> length cs"
    by (rule length_dropWhile_le)
  then show "(dropWhile (\<lambda>x. \<not> isSpace x) cs, c # cs) \<in> measure length"
    by simp
qed

declare parseCommandArguments.simps [simp del]

text \<open>
  The two patterns \<^verbatim>\<open>/^every\s+(\d+)\s+minutes?$/\<close> and
  \<^verbatim>\<open>/^every\s+(\d+)\s+hours?$/\<close>: \<open>everyMatch unit s\<close> is the number captured when
  \<open>s\<close> matches the pattern for \<open>unit\<close>, and \<open>None\<close> when it does not. Each greedy
  run can only end where its class ends, so taking the longest run at each step decides
  the match.
\<close>

fun dropPrefix :: "string \<Rightarrow> string \<Rightarrow> string option" where
  "dropPrefix [] s = Some s"
| "dropPrefix (p # ps) [] = None"
| "dropPrefix (p # ps) (c # cs) = (if p = c then dropPrefix ps cs else None)"

definition everyMatch :: "string \<Rightarrow> string \<Rightarrow> nat option" where
  "everyMatch unit s =
     (case dropPrefix ''every'' s of
        None \<Rightarrow> None
      | Some r1 \<Rightarrow>
          (let ws1 = takeWhile isSpace r1; r2 = dropWhile isSpace r1;
               ds = takeWhile isDigit r2; r3 = dropWhile isDigit r2;
               ws2 = takeWhile isSpace r3; r4 = dropWhile isSpace r3
           in if ws1 \<noteq> [] \<and> ds \<noteq> [] \<and> ws2 \<noteq> [] \<and> (r4 = unit \<or> r4 = unit @ ''s'')
              then Some (parseInt ds) else None))"

text \<open>The mapping of friendly names and phrases to cron expressions, inline in the
  handler; text it does not recognise is passed on as it is.\<close>

definition frequencyToCron :: "string \<Rightarrow> string" where
  "frequencyToCron cronExpression0 =
     (let freqLower = toLowerCase cronExpression0
      in if freqLower = ''hourly'' \<or> freqLower = ''every hour'' then ''0 * * * *''
         else if freqLower = ''daily'' \<or> freqLower = ''every day'' then ''0 12 * * *''
         else if freqLower = ''weekly'' \<or> freqLower = ''every week'' then ''0 12 * * 1''
         else (case everyMatch ''minute'' freqLower of
                 Some minutes \<Rightarrow>
                   if 1 \<le> minutes \<and> minutes \<le> 59
                   then ''*/'' @ Number_toString minutes @ '' * * * *''
                   else cronExpression0
               | None \<Rightarrow>
                   (case everyMatch ''hour'' freqLower of
                      Some hours \<Rightarrow>
                        if 1 \<le> hours \<and> hours \<le> 23
                        then ''0 */'' @ Number_toString hours @ '' * * *''
                        else cronExpression0
                    | None \<Rightarrow> cronExpression0)))"

definition cronDescription :: "string \<Rightarrow> string" where
  "cronDescription c =
     (if c = ''0 * * * *'' then ''Every hour''
      else if c = ''0 */6 * * *'' then ''Every 6 hours''
      else if c = ''0 */12 * * *'' then ''Every 12 hours''
      else if c = ''0 0 * * *'' then ''Daily at midnight''
      else if c = ''0 12 * * *'' then ''Daily at noon''
      else if c = ''0 12 * * 1'' then ''Weekly on Monday at noon''
      else c)"

text \<open>
  \<^verbatim>\<open>require("node-cron").validate(cronExpression)\<close> is a call into a library outside
  the repository. It is the parameter \<open>validate\<close>, whose result says whether the call
  returned, and which boolean, or threw. The handler of the source sets
  \<^verbatim>\<open>isValidCron = false\<close> only in the \<^verbatim>\<open>catch\<close> block and never reads the value
  returned.
\<close>

datatype 'a outcome = Returns 'a | Throws

record TelegramUser =
  user_id :: int
  user_username :: "string option"
  first_name :: string

record Ctx =
  ctx_message :: "string option"
  ctx_chat :: "int option"
  ctx_from :: "TelegramUser option"

text \<open>The replies of the handler, by kind: the usage text, the two validation messages,
  the two messages about a missing chat or user id, and the confirmation, which shows the
  stored schedule and the description of its expression. The \<^verbatim>\<open>catch\<close> around the
  creation is not modelled: nothing it encloses throws in this model.\<close>

datatype Reply =
    Usage
  | InvalidType
  | InvalidScheduleFormat
  | NoChatId
  | NoUserId
  | Created ScheduleConfig string

definition handleCreateSchedule ::
    "(string \<Rightarrow> bool outcome) \<Rightarrow> (string \<Rightarrow> bool) \<Rightarrow> (nat \<Rightarrow> nat) \<Rightarrow> nat \<Rightarrow>
     Store \<Rightarrow> SchedulerService \<Rightarrow> Ctx \<Rightarrow> Reply \<times> Store \<times> SchedulerService" where
  "handleCreateSchedule validate cronValid clock rnd schedules engine ctx =
     (let message = (case ctx_message ctx of Some t \<Rightarrow> t | None \<Rightarrow> []);
          args = drop 1 (parseCommandArguments message)
      in if length args < 1 then (Usage, schedules, engine)
         else
          (let type = toLowerCase (args ! 0)
           in if type \<noteq> ''artist'' \<and> type \<noteq> ''nft'' then (InvalidType, schedules, engine)
              else
               (let cronExpression0 = (if length args > 1 then args ! 1 else ''daily'');
                    nm = (if length args > 2 then args ! 2
                          else if type = ''artist'' then ''Random Artist'' else ''Random NFT'');
                    cron = frequencyToCron cronExpression0;
                    isValidCron = (case validate cron of Returns b \<Rightarrow> True | Throws \<Rightarrow> False)
                in if \<not> isValidCron then (InvalidScheduleFormat, schedules, engine)
                   else
                    (case ctx_chat ctx of
                       None \<Rightarrow> (NoChatId, schedules, engine)
                     | Some chat \<Rightarrow>
                        (case ctx_from ctx of
                           None \<Rightarrow> (NoUserId, schedules, engine)
                         | Some u \<Rightarrow>
                            (let uname =
                                   (if truthy_opt (user_username u) then the (user_username u)
                                    else if truthy (first_name u) then first_name u
                                    else ''Anonymous'');
                                 (schedule, schedules') =
                                   createUserSchedule clock rnd schedules nm
                                     (if type = ''artist'' then Artist else Nft) cron Telegram
                                     None None (Some (Int_toString chat))
                                     (Int_toString (user_id u)) (Some uname);
                                 engine' = SchedulerService_addSchedule cronValid engine schedule
                             in (Created schedule (cronDescription cron), schedules', engine')))))))"

section \<open>Sample data\<close>

text \<open>Concrete stores, schedules and an engine, at which the theorems below are
  instantiated. The first schedule is the one of the specification's scenario.\<close>

definition sched_tg :: ScheduleConfig where
  "sched_tg =
     \<lparr> idS = ''telegram-1700000000000-123'', name = ''X'', cronExpression = ''0 * * * *'',
       enabled = True, fetchType = Nft, createdAt = 1700000000000,
       createdBy = Some \<lparr> platform = Telegram, userId = ''u1'', username = None \<rparr>,
       discord = None, telegram = Some \<lparr> chatId = ''123'' \<rparr> \<rparr>"

definition sched_dc :: ScheduleConfig where
  "sched_dc =
     \<lparr> idS = ''discord-1700000000000-7'', name = ''Daily Artist'',
       cronExpression = ''0 12 * * *'', enabled = True, fetchType = Artist,
       createdAt = 1700000000000,
       createdBy = Some \<lparr> platform = Discord, userId = ''u2'', username = Some ''bob'' \<rparr>,
       discord = Some \<lparr> channelId = ''c9'', guildId = Some ''g1'' \<rparr>, telegram = None \<rparr>"

text \<open>A record as an older \<^verbatim>\<open>schedules.json\<close> may hold it: no \<^verbatim>\<open>createdBy\<close>.\<close>

definition sched_legacy :: ScheduleConfig where
  "sched_legacy =
     \<lparr> idS = ''legacy'', name = ''Old'', cronExpression = ''0 0 * * *'', enabled = True,
       fetchType = Nft, createdAt = 5, createdBy = None,
       discord = None, telegram = Some \<lparr> chatId = ''123'' \<rparr> \<rparr>"

text \<open>An update payload for \<open>sched_tg\<close> that carries other creation data.\<close>

definition payload_tg :: ScheduleConfig where
  "payload_tg =
     \<lparr> idS = ''telegram-1700000000000-123'', name = ''Y'', cronExpression = ''0 12 * * 1'',
       enabled = False, fetchType = Artist, createdAt = 42,
       createdBy = Some \<lparr> platform = Discord, userId = ''mallory'', username = None \<rparr>,
       discord = None, telegram = Some \<lparr> chatId = ''999'' \<rparr> \<rparr>"

definition store3 :: Store where
  "store3 = [sched_dc, sched_tg, sched_legacy]"

text \<open>
  A stand-in for node-cron's judgement of an expression on the inputs used below: it
  accepts the four expressions of the examples and rejects everything else, the text
  \<open>garbage\<close> in particular.
\<close>

definition cronValid_sample :: "string \<Rightarrow> bool" where
  "cronValid_sample c =
     (c \<in> set [''0 * * * *'', ''0 12 * * *'', ''0 12 * * 1'', ''0 0 * * *''])"

text \<open>An enabled schedule whose expression is not a cron expression.\<close>

definition sched_garbage :: ScheduleConfig where
  "sched_garbage =
     \<lparr> idS = ''telegram-1700000000000-123'', name = ''Random Artist'',
       cronExpression = ''garbage'', enabled = True, fetchType = Artist,
       createdAt = 1700000000001,
       createdBy = Some \<lparr> platform = Telegram, userId = ''42'', username = Some ''ann'' \<rparr>,
       discord = None, telegram = Some \<lparr> chatId = ''123'' \<rparr> \<rparr>"

text \<open>A paused schedule: a destination, a valid expression, \<^verbatim>\<open>enabled\<close> false.\<close>

definition sched_paused :: ScheduleConfig where
  "sched_paused =
     \<lparr> idS = ''telegram-1700000000000-5'', name = ''Paused'', cronExpression = ''0 * * * *'',
       enabled = False, fetchType = Nft, createdAt = 1700000000000,
       createdBy = Some \<lparr> platform = Telegram, userId = ''u1'', username = None \<rparr>,
       discord = None, telegram = Some \<lparr> chatId = ''123'' \<rparr> \<rparr>"

text \<open>An engine with both senders registered and no task, as after start-up with an
  empty store.\<close>

definition engine_ready :: SchedulerService where
  "engine_ready = setTelegramSender (setDiscordSender newSchedulerService)"

text \<open>The clock of the examples: readings one millisecond apart.\<close>

definition clock_sample :: "nat \<Rightarrow> nat" where
  "clock_sample k = 1700000000000 + k"

text \<open>What \<^verbatim>\<open>createUserSchedule\<close> stores for a Discord request without a channel
  id.\<close>

definition sched_orphan :: ScheduleConfig where
  "sched_orphan =
     \<lparr> idS = ''discord-1700000000000-7'', name = ''X'', cronExpression = ''0 * * * *'',
       enabled = True, fetchType = Nft, createdAt = 1700000000001,
       createdBy = Some \<lparr> platform = Discord, userId = ''u1'', username = None \<rparr>,
       discord = None, telegram = None \<rparr>"

text \<open>The ready engine after \<open>sched_tg\<close> has been added, and a sequence of engine
  operations.\<close>

definition engine_one :: SchedulerService where
  "engine_one = SchedulerService_addSchedule cronValid_sample engine_ready sched_tg"

definition ops_sample :: "EngineOp list" where
  "ops_sample =
     [SetTelegramSender, AddScheduledTasks [sched_tg, sched_paused],
      UpdateSchedule sched_paused, AddSchedule sched_legacy]"

text \<open>The command \<^verbatim>\<open>/schedule_create artist garbage\<close>, sent by user 42 in chat
  123.\<close>

definition ctx_garbage :: Ctx where
  "ctx_garbage =
     \<lparr> ctx_message = Some ''/schedule_create artist garbage'', ctx_chat = Some 123,
       ctx_from = Some \<lparr> user_id = 42, user_username = Some ''ann'', first_name = ''Ann'' \<rparr> \<rparr>"

text \<open>A record without \<^verbatim>\<open>createdBy\<close> that carries the id of \<open>sched_tg\<close>, and the
  store in which it stands behind \<open>sched_tg\<close>.\<close>

definition sched_shadowed :: ScheduleConfig where
  "sched_shadowed =
     \<lparr> idS = ''telegram-1700000000000-123'', name = ''Old'', cronExpression = ''0 0 * * *'',
       enabled = True, fetchType = Nft, createdAt = 5, createdBy = None,
       discord = None, telegram = Some \<lparr> chatId = ''123'' \<rparr> \<rparr>"

definition store_dup :: Store where
  "store_dup = [sched_tg, sched_shadowed]"

section \<open>Store: facts about lookup\<close>

lemma findIndex_None_iff: "findIndex P xs = None \<longleftrightarrow> (\<forall>x \<in> set xs. \<not> P x)"
  by (induction xs) auto

lemma findIndex_Some:
  "findIndex P xs = Some i \<Longrightarrow> i < length xs \<and> P (xs ! i) \<and> (\<forall>j < i. \<not> P (xs ! j))"
proof (induction xs arbitrary: i)
  case Nil
  then show ?case by simp
next
  case (Cons x xs)
  show ?case
  proof (cases "P x")
    case True
    with Cons.prems show ?thesis by simp
  next
    case False
    with Cons.prems obtain k where k: "findIndex P xs = Some k" "i = Suc k"
      by auto
    from Cons.IH [OF k(1)] have ih: "k < length xs" "P (xs ! k)" "\<forall>j < k. \<not> P (xs ! j)"
      by auto
    have "\<forall>j < Suc k. \<not> P ((x # xs) ! j)"
    proof (intro allI impI)
      fix j assume "j < Suc k"
      then show "\<not> P ((x # xs) ! j)" using False ih(3) by (cases j) auto
    qed
    with ih k show ?thesis by simp
  qed
qed

lemma findIndex_find:
  "findIndex P xs = Some i \<Longrightarrow> find P xs = Some (xs ! i)"
  by (induction xs arbitrary: i) (auto split: if_splits)

lemma find_after_update:
  assumes "findIndex P xs = Some i" and "P y"
  shows "find P (xs[i := y]) = Some y"
  using assms
proof (induction xs arbitrary: i)
  case Nil
  then show ?case by simp
next
  case (Cons x xs)
  then show ?case by (cases "P x") auto
qed

lemma getSchedule_None_iff: "getSchedule st i = None \<longleftrightarrow> (\<forall>s \<in> set st. idS s \<noteq> i)"
  by (auto simp: getSchedule_def find_None_iff)

lemma getSchedule_SomeD: "getSchedule st i = Some s \<Longrightarrow> s \<in> set st \<and> idS s = i"
  by (auto simp: getSchedule_def find_Some_iff)

lemma getSchedule_distinct:
  "distinct (map idS st) \<Longrightarrow> s \<in> set st \<Longrightarrow> getSchedule st (idS s) = Some s"
proof (induction st)
  case Nil
  then show ?case by simp
next
  case (Cons a st)
  show ?case
  proof (cases "idS a = idS s")
    case True
    with Cons.prems have "a = s" by (auto simp: image_iff)
    then show ?thesis by (simp add: getSchedule_def)
  next
    case False
    with Cons show ?thesis by (auto simp: getSchedule_def)
  qed
qed

lemma getSchedule_findIndex:
  "getSchedule st i = Some s \<Longrightarrow> \<exists>k. findIndex (\<lambda>x. idS x = i) st = Some k \<and> st ! k = s"
proof -
  assume a: "getSchedule st i = Some s"
  then have "findIndex (\<lambda>x. idS x = i) st \<noteq> None"
    by (auto simp: findIndex_None_iff dest: getSchedule_SomeD)
  then obtain k where k: "findIndex (\<lambda>x. idS x = i) st = Some k" by auto
  from findIndex_find [OF k] a have "st ! k = s" by (simp add: getSchedule_def)
  with k show ?thesis by blast
qed

section \<open>Store: updateSchedule\<close>

text \<open>
  Claim C3. \<^verbatim>\<open>updateSchedule\<close> returns absent and leaves the store as it is when no
  record has the payload's id. Otherwise, with \<open>old\<close> the record the id resolves to, the
  record returned and found under the id afterwards has \<^verbatim>\<open>createdAt\<close> and
  \<^verbatim>\<open>createdBy\<close> of \<open>old\<close>, whatever the payload carried there, and every other field
  of the payload; it stands in the place of \<open>old\<close> and no other position changes.
\<close>

theorem updateSchedule_keeps_creation:
  "((\<forall>s \<in> set st. idS s \<noteq> idS u) \<longrightarrow> updateSchedule st u = (None, st)) \<and>
   (getSchedule st (idS u) = Some old \<longrightarrow>
      (\<exists>r k. fst (updateSchedule st u) = Some r \<and>
         getSchedule (snd (updateSchedule st u)) (idS u) = Some r \<and>
         createdAt r = createdAt old \<and> createdBy r = createdBy old \<and>
         idS r = idS u \<and> name r = name u \<and> cronExpression r = cronExpression u \<and>
         enabled r = enabled u \<and> fetchType r = fetchType u \<and>
         discord r = discord u \<and> telegram r = telegram u \<and>
         k < length st \<and> st ! k = old \<and> snd (updateSchedule st u) = st[k := r]))"
proof (intro conjI impI)
  assume "\<forall>s \<in> set st. idS s \<noteq> idS u"
  then have "findIndex (\<lambda>s. idS s = idS u) st = None"
    by (simp add: findIndex_None_iff)
  then show "updateSchedule st u = (None, st)"
    by (simp add: updateSchedule_def)
next
  assume g: "getSchedule st (idS u) = Some old"
  from getSchedule_findIndex [OF g] obtain k
    where k: "findIndex (\<lambda>x. idS x = idS u) st = Some k" and old: "st ! k = old"
    by blast
  define r where "r = u\<lparr>createdAt := createdAt old, createdBy := createdBy old\<rparr>"
  have res: "updateSchedule st u = (Some r, st[k := r])"
    using k old by (simp add: updateSchedule_def r_def Let_def)
  have "idS r = idS u" by (simp add: r_def)
  then have "find (\<lambda>x. idS x = idS u) (st[k := r]) = Some r"
    using find_after_update [OF k, of r] by simp
  then have found: "getSchedule (snd (updateSchedule st u)) (idS u) = Some r"
    by (simp add: res getSchedule_def)
  have len: "k < length st" using findIndex_Some [OF k] by simp
  show "\<exists>r k. fst (updateSchedule st u) = Some r \<and>
         getSchedule (snd (updateSchedule st u)) (idS u) = Some r \<and>
         createdAt r = createdAt old \<and> createdBy r = createdBy old \<and>
         idS r = idS u \<and> name r = name u \<and> cronExpression r = cronExpression u \<and>
         enabled r = enabled u \<and> fetchType r = fetchType u \<and>
         discord r = discord u \<and> telegram r = telegram u \<and>
         k < length st \<and> st ! k = old \<and> snd (updateSchedule st u) = st[k := r]"
    using found len old by (intro exI [of _ r] exI [of _ k]) (simp add: res, simp add: r_def)
qed

lemma getSchedule_store3_tg: "getSchedule store3 (idS payload_tg) = Some sched_tg"
  by (simp add: getSchedule_def store3_def payload_tg_def sched_tg_def sched_dc_def
      sched_legacy_def)

theorem updateSchedule_keeps_creation_witness:
  "updateSchedule [sched_dc] payload_tg = (None, [sched_dc]) \<and>
   (\<exists>r. fst (updateSchedule store3 payload_tg) = Some r \<and>
        createdAt r = 1700000000000 \<and>
        createdBy r = Some \<lparr> platform = Telegram, userId = ''u1'', username = None \<rparr> \<and>
        name r = ''Y'' \<and> enabled r = False)"
proof -
  have a: "\<forall>s \<in> set [sched_dc]. idS s \<noteq> idS payload_tg"
    by (simp add: sched_dc_def payload_tg_def)
  from updateSchedule_keeps_creation [of "[sched_dc]" payload_tg sched_tg] a
  have one: "updateSchedule [sched_dc] payload_tg = (None, [sched_dc])" by blast
  from updateSchedule_keeps_creation [of store3 payload_tg sched_tg] getSchedule_store3_tg
  obtain r where "fst (updateSchedule store3 payload_tg) = Some r"
    "createdAt r = createdAt sched_tg" "createdBy r = createdBy sched_tg"
    "name r = name payload_tg" "enabled r = enabled payload_tg"
    by blast
  then have "fst (updateSchedule store3 payload_tg) = Some r \<and>
        createdAt r = 1700000000000 \<and>
        createdBy r = Some \<lparr> platform = Telegram, userId = ''u1'', username = None \<rparr> \<and>
        name r = ''Y'' \<and> enabled r = False"
    by (simp add: sched_tg_def payload_tg_def)
  with one show ?thesis by blast
qed

section \<open>Store: canUserManageSchedule\<close>

text \<open>
  Claim C4. \<^verbatim>\<open>canUserManageSchedule\<close> is false whenever no record has the id, for
  an admin too. When the id resolves to a record, it is true for every admin, and for a
  caller who is not an admin it is true exactly when the record has a \<^verbatim>\<open>createdBy\<close>
  whose platform and user id are the ones supplied.
\<close>

theorem canUserManageSchedule_rule:
  "((\<forall>s \<in> set st. idS s \<noteq> i) \<longrightarrow> \<not> canUserManageSchedule st i p u isAdmin) \<and>
   (getSchedule st i = Some s \<longrightarrow>
      canUserManageSchedule st i p u True \<and>
      (canUserManageSchedule st i p u False \<longleftrightarrow>
         (\<exists>c. createdBy s = Some c \<and> platform c = p \<and> userId c = u)))"
proof (intro conjI impI)
  assume "\<forall>s \<in> set st. idS s \<noteq> i"
  then have "getSchedule st i = None" by (simp add: getSchedule_None_iff)
  then show "\<not> canUserManageSchedule st i p u isAdmin"
    by (simp add: canUserManageSchedule_def)
next
  assume "getSchedule st i = Some s"
  then show "canUserManageSchedule st i p u True"
    by (simp add: canUserManageSchedule_def)
next
  assume "getSchedule st i = Some s"
  then show "canUserManageSchedule st i p u False \<longleftrightarrow>
         (\<exists>c. createdBy s = Some c \<and> platform c = p \<and> userId c = u)"
    by (cases "createdBy s") (simp_all add: canUserManageSchedule_def)
qed

theorem canUserManageSchedule_rule_witness:
  "\<not> canUserManageSchedule store3 ''nowhere'' Telegram ''u1'' True \<and>
   canUserManageSchedule store3 (idS sched_tg) Discord ''u9'' True \<and>
   canUserManageSchedule store3 (idS sched_tg) Telegram ''u1'' False \<and>
   \<not> canUserManageSchedule store3 (idS sched_tg) Discord ''u1'' False \<and>
   \<not> canUserManageSchedule store3 (idS sched_tg) Telegram ''u2'' False"
proof -
  have none: "\<forall>s \<in> set store3. idS s \<noteq> ''nowhere''"
    by (simp add: store3_def sched_tg_def sched_dc_def sched_legacy_def)
  have some: "getSchedule store3 (idS sched_tg) = Some sched_tg"
    by (simp add: getSchedule_def store3_def sched_tg_def sched_dc_def sched_legacy_def)
  have cb: "createdBy sched_tg = Some \<lparr> platform = Telegram, userId = ''u1'', username = None \<rparr>"
    by (simp add: sched_tg_def)
  show ?thesis
    using canUserManageSchedule_rule [of store3 "''nowhere''" Telegram "''u1''" True sched_tg]
      canUserManageSchedule_rule [of store3 "idS sched_tg" Discord "''u9''" True sched_tg]
      canUserManageSchedule_rule [of store3 "idS sched_tg" Telegram "''u1''" True sched_tg]
      canUserManageSchedule_rule [of store3 "idS sched_tg" Discord "''u1''" True sched_tg]
      canUserManageSchedule_rule [of store3 "idS sched_tg" Telegram "''u2''" True sched_tg]
      none some cb
    by simp
qed

text \<open>
  Claim C10, as amended. When the id resolves to a record without \<^verbatim>\<open>createdBy\<close>
  (the first record of the store with that id), the answer of
  \<^verbatim>\<open>canUserManageSchedule\<close> is the admin flag, for every platform and user id: false
  for every caller who is not an admin, true for an admin. When the ids of the store are
  unique this is so for every record of the store that has no \<^verbatim>\<open>createdBy\<close>.
\<close>

theorem canUserManageSchedule_no_creator:
  "(getSchedule st i = Some s \<and> createdBy s = None \<longrightarrow>
      canUserManageSchedule st i p u isAdmin = isAdmin) \<and>
   (s \<in> set st \<and> distinct (map idS st) \<and> createdBy s = None \<longrightarrow>
      canUserManageSchedule st (idS s) p u isAdmin = isAdmin)"
proof (intro conjI impI)
  assume "getSchedule st i = Some s \<and> createdBy s = None"
  then show "canUserManageSchedule st i p u isAdmin = isAdmin"
    by (simp add: canUserManageSchedule_def)
next
  assume a: "s \<in> set st \<and> distinct (map idS st) \<and> createdBy s = None"
  then have "getSchedule st (idS s) = Some s" by (simp add: getSchedule_distinct)
  with a show "canUserManageSchedule st (idS s) p u isAdmin = isAdmin"
    by (simp add: canUserManageSchedule_def)
qed

theorem canUserManageSchedule_no_creator_witness:
  "\<not> canUserManageSchedule store3 ''legacy'' Telegram ''u1'' False \<and>
   \<not> canUserManageSchedule store3 ''legacy'' Discord ''u2'' False \<and>
   canUserManageSchedule store3 ''legacy'' Discord ''u2'' True"
proof -
  have some: "getSchedule store3 ''legacy'' = Some sched_legacy \<and> createdBy sched_legacy = None"
    by (simp add: getSchedule_def store3_def sched_tg_def sched_dc_def sched_legacy_def)
  have mem: "sched_legacy \<in> set store3 \<and> distinct (map idS store3) \<and> idS sched_legacy = ''legacy''"
    by (simp add: store3_def sched_tg_def sched_dc_def sched_legacy_def)
  show ?thesis
    using canUserManageSchedule_no_creator [of store3 "''legacy''" sched_legacy Telegram "''u1''" False]
      canUserManageSchedule_no_creator [of store3 "''legacy''" sched_legacy Discord "''u2''" False]
      canUserManageSchedule_no_creator [of store3 "''legacy''" sched_legacy Discord "''u2''" True]
      some mem
    by simp
qed

text \<open>
  The claim as stated, for every record present in the store, fails when an earlier
  record has the same id: the lookup stops at the earlier record, and its creator, who is
  not an admin, is answered true on the id of the record without \<^verbatim>\<open>createdBy\<close>. The
  store's \<^verbatim>\<open>addSchedule\<close> produces such a store.
\<close>

theorem canUserManageSchedule_shadowed_record:
  "snd (addSchedule clock_sample [sched_tg] sched_shadowed) = store_dup \<and>
   sched_shadowed \<in> set store_dup \<and> createdBy sched_shadowed = None \<and>
   canUserManageSchedule store_dup (idS sched_shadowed) Telegram ''u1'' False"
  by (simp add: addSchedule_def Let_def truthy_def store_dup_def sched_shadowed_def
      sched_tg_def canUserManageSchedule_def getSchedule_def)

section \<open>Store: getDiscordChannelSchedules\<close>

text \<open>
  Claim C9. A record of the store without a \<^verbatim>\<open>discord\<close> block is in the result of
  \<^verbatim>\<open>getDiscordChannelSchedules\<close> exactly when the channel id asked for is the empty
  string, whatever guild id is supplied; a record whose block is absent or has an empty
  \<^verbatim>\<open>channelId\<close> is in the result only for that query; so a query with the empty
  channel id returns every record that has no \<^verbatim>\<open>discord\<close> block, the Telegram-only
  ones among them.
\<close>

theorem getDiscordChannelSchedules_no_discord:
  "(s \<in> set st \<and> discord s = None \<longrightarrow>
      (s \<in> set (getDiscordChannelSchedules st chan guild) \<longleftrightarrow> chan = [])) \<and>
   (s \<in> set (getDiscordChannelSchedules st chan guild) \<and>
      (case discord s of None \<Rightarrow> True | Some d \<Rightarrow> channelId d = []) \<longrightarrow> chan = []) \<and>
   set (filter (\<lambda>x. discord x = None) st) \<subseteq> set (getDiscordChannelSchedules st [] guild)"
proof (intro conjI impI)
  assume "s \<in> set st \<and> discord s = None"
  then show "s \<in> set (getDiscordChannelSchedules st chan guild) \<longleftrightarrow> chan = []"
    by (auto simp: getDiscordChannelSchedules_def Let_def)
next
  assume "s \<in> set (getDiscordChannelSchedules st chan guild) \<and>
      (case discord s of None \<Rightarrow> True | Some d \<Rightarrow> channelId d = [])"
  then show "chan = []"
    by (auto simp: getDiscordChannelSchedules_def Let_def truthy_def split: option.splits)
next
  show "set (filter (\<lambda>x. discord x = None) st) \<subseteq> set (getDiscordChannelSchedules st [] guild)"
    by (auto simp: getDiscordChannelSchedules_def Let_def)
qed

theorem getDiscordChannelSchedules_no_discord_witness:
  "sched_tg \<in> set (getDiscordChannelSchedules store3 [] (Some ''g1'')) \<and>
   sched_tg \<notin> set (getDiscordChannelSchedules store3 ''c9'' None)"
proof -
  have a: "sched_tg \<in> set store3 \<and> discord sched_tg = None"
    by (simp add: store3_def sched_tg_def)
  show ?thesis
    using getDiscordChannelSchedules_no_discord [of sched_tg store3 "[]" "Some ''g1''"]
      getDiscordChannelSchedules_no_discord [of sched_tg store3 "''c9''" None] a
    by simp
qed

section \<open>Engine: what every state satisfies\<close>

lemma update_fresh: "map_of T i = None \<Longrightarrow> AList.update i v T = T @ [(i, v)]"
  by (induction T) (auto split: if_splits)

lemma fold_task_stop:
  "fold (\<lambda>(i, task) e'. task_stop e' task) T e =
     e\<lparr>cronRunning := filter (\<lambda>t. handle t \<notin> handle ` snd ` set T) (cronRunning e)\<rparr>"
proof (induction T arbitrary: e)
  case Nil
  then show ?case by simp
next
  case (Cons a T)
  obtain i task where a: "a = (i, task)" by (cases a)
  have "fold (\<lambda>(i, task) e'. task_stop e' task) (a # T) e =
        fold (\<lambda>(i, task) e'. task_stop e' task) T (task_stop e task)"
    by (simp add: a)
  also have "\<dots> = (task_stop e task)\<lparr>cronRunning :=
        filter (\<lambda>t. handle t \<notin> handle ` snd ` set T) (cronRunning (task_stop e task))\<rparr>"
    by (rule Cons.IH)
  also have "\<dots> = e\<lparr>cronRunning :=
        filter (\<lambda>t. handle t \<notin> handle ` snd ` set (a # T)) (cronRunning e)\<rparr>"
    by (simp add: task_stop_def a)
  finally show ?case .
qed

lemma engine_inv_new: "engine_inv newSchedulerService"
  by (simp add: engine_inv_def newSchedulerService_def)

lemma engine_inv_senders:
  "engine_inv e \<Longrightarrow> engine_inv (setDiscordSender e) \<and> engine_inv (setTelegramSender e)"
  unfolding engine_inv_def setDiscordSender_def setTelegramSender_def
  by (simp del: map_of_eq_Some_iff)

lemma handle_inj:
  assumes "distinct (map handle R)" "t \<in> set R" "t' \<in> set R" "handle t = handle t'"
  shows "t = t'"
  using assms by (meson distinct_map inj_onD)

lemma engine_inv_add:
  assumes inv: "engine_inv e"
  shows "engine_inv (SchedulerService_addSchedule cv e s)"
proof (cases "map_of (scheduledTasks e) (idS s) = None \<and> (discordSender e \<or> telegramSender e) \<and>
              \<not> noValidTargets s \<and> cv (cronExpression s)")
  case False
  then have "SchedulerService_addSchedule cv e s = e"
    by (auto simp: SchedulerService_addSchedule_def cron_schedule_def)
  with inv show ?thesis by simp
next
  case True
  define task where "task = \<lparr> handle = cronNext e, pattern = cronExpression s, job = s \<rparr>"
  have fresh: "map_of (scheduledTasks e) (idS s) = None" using True by simp
  have eq: "SchedulerService_addSchedule cv e s =
      e\<lparr>cronRunning := cronRunning e @ [task], cronNext := Suc (cronNext e),
        scheduledTasks := scheduledTasks e @ [(idS s, task)]\<rparr>"
    using True by (auto simp: SchedulerService_addSchedule_def cron_schedule_def Let_def
        task_def update_fresh)
  have d1: "distinct (map fst (scheduledTasks e))"
    and d2: "distinct (map handle (cronRunning e))"
    and lt: "\<forall>t \<in> set (cronRunning e). handle t < cronNext e"
    and tr: "\<forall>(i, t) \<in> set (scheduledTasks e). idS (job t) = i \<and> t \<in> set (cronRunning e)"
    and rt: "\<forall>t \<in> set (cronRunning e). map_of (scheduledTasks e) (idS (job t)) = Some t"
    using inv by (auto simp: engine_inv_def list_all_iff)
  have notin: "idS s \<notin> fst ` set (scheduledTasks e)"
    using fresh by (simp add: map_of_eq_None_iff)
  have a1: "distinct (map fst (scheduledTasks e @ [(idS s, task)]))"
    using d1 notin by simp
  have a2: "distinct (map handle (cronRunning e @ [task]))"
    using d2 lt by (auto simp: task_def)
  have a3: "\<forall>t \<in> set (cronRunning e @ [task]). handle t < Suc (cronNext e)"
    using lt by (auto simp: task_def less_Suc_eq)
  have a4: "\<forall>(i, t) \<in> set (scheduledTasks e @ [(idS s, task)]).
              idS (job t) = i \<and> t \<in> set (cronRunning e @ [task])"
    using tr by (auto simp: task_def)
  have a5: "\<forall>t \<in> set (cronRunning e @ [task]).
              map_of (scheduledTasks e @ [(idS s, task)]) (idS (job t)) = Some t"
  proof
    fix t assume "t \<in> set (cronRunning e @ [task])"
    then consider "t \<in> set (cronRunning e)" | "t = task" by auto
    then show "map_of (scheduledTasks e @ [(idS s, task)]) (idS (job t)) = Some t"
    proof cases
      case 1
      with rt have "map_of (scheduledTasks e) (idS (job t)) = Some t" by simp
      then show ?thesis by (simp add: map_add_Some_iff)
    next
      case 2
      then show ?thesis using fresh by (simp add: task_def map_add_Some_iff)
    qed
  qed
  show ?thesis
    unfolding eq engine_inv_def list_all_iff using a1 a2 a3 a4 a5 by simp
qed

lemma engine_inv_remove:
  assumes inv: "engine_inv e"
  shows "engine_inv (snd (removeSchedule e i))"
proof (cases "map_of (scheduledTasks e) i")
  case None
  with inv show ?thesis by (simp add: removeSchedule_def)
next
  case (Some task)
  have eq: "snd (removeSchedule e i) =
      e\<lparr>cronRunning := filter (\<lambda>t. handle t \<noteq> handle task) (cronRunning e),
        scheduledTasks := AList.delete i (scheduledTasks e)\<rparr>"
    using Some by (simp add: removeSchedule_def task_stop_def)
  have d1: "distinct (map fst (scheduledTasks e))"
    and d2: "distinct (map handle (cronRunning e))"
    and lt: "\<forall>t \<in> set (cronRunning e). handle t < cronNext e"
    and tr: "\<forall>(j, t) \<in> set (scheduledTasks e). idS (job t) = j \<and> t \<in> set (cronRunning e)"
    and rt: "\<forall>t \<in> set (cronRunning e). map_of (scheduledTasks e) (idS (job t)) = Some t"
    using inv by (auto simp: engine_inv_def list_all_iff)
  have mem: "(i, task) \<in> set (scheduledTasks e)" using Some by (rule map_of_SomeD)
  with tr have task: "idS (job task) = i" "task \<in> set (cronRunning e)" by auto
  have a1: "distinct (map fst (AList.delete i (scheduledTasks e)))"
    using d1 by (rule distinct_delete)
  have a2: "distinct (map handle (filter (\<lambda>t. handle t \<noteq> handle task) (cronRunning e)))"
    using d2 by (rule distinct_map_filter)
  have a3: "\<forall>t \<in> set (filter (\<lambda>t. handle t \<noteq> handle task) (cronRunning e)). handle t < cronNext e"
    using lt by simp
  have a4: "\<forall>(j, t) \<in> set (AList.delete i (scheduledTasks e)).
      idS (job t) = j \<and> t \<in> set (filter (\<lambda>t. handle t \<noteq> handle task) (cronRunning e))"
  proof (clarify)
    fix j t assume jt: "(j, t) \<in> set (AList.delete i (scheduledTasks e))"
    then have in_T: "(j, t) \<in> set (scheduledTasks e)" and ne: "j \<noteq> i"
      by (auto simp: AList.delete_eq)
    with tr have t: "idS (job t) = j" "t \<in> set (cronRunning e)" by auto
    have "handle t \<noteq> handle task"
    proof
      assume "handle t = handle task"
      with handle_inj [OF d2 t(2) task(2)] have "t = task" by simp
      with t(1) task(1) ne show False by simp
    qed
    with t show "idS (job t) = j \<and> t \<in> set (filter (\<lambda>t. handle t \<noteq> handle task) (cronRunning e))"
      by simp
  qed
  have a5: "\<forall>t \<in> set (filter (\<lambda>t. handle t \<noteq> handle task) (cronRunning e)).
      map_of (AList.delete i (scheduledTasks e)) (idS (job t)) = Some t"
  proof
    fix t assume "t \<in> set (filter (\<lambda>t. handle t \<noteq> handle task) (cronRunning e))"
    then have t: "t \<in> set (cronRunning e)" "handle t \<noteq> handle task" by auto
    with rt have m: "map_of (scheduledTasks e) (idS (job t)) = Some t" by simp
    have "idS (job t) \<noteq> i"
    proof
      assume "idS (job t) = i"
      with m Some have "t = task" by simp
      with t(2) show False by simp
    qed
    with m show "map_of (AList.delete i (scheduledTasks e)) (idS (job t)) = Some t"
      by (simp add: delete_conv)
  qed
  show ?thesis
    unfolding eq engine_inv_def list_all_iff using a1 a2 a3 a4 a5 by simp
qed

lemma engine_inv_update:
  "engine_inv e \<Longrightarrow> engine_inv (SchedulerService_updateSchedule cv e s)"
  by (simp add: SchedulerService_updateSchedule_def Let_def engine_inv_add engine_inv_remove)

lemma engine_inv_fold_add:
  "engine_inv e \<Longrightarrow>
   engine_inv (fold (\<lambda>schedule e'. SchedulerService_addSchedule cv e' schedule) ss e)"
  by (induction ss arbitrary: e) (simp_all add: engine_inv_add)

lemma engine_inv_addScheduledTasks:
  "engine_inv e \<Longrightarrow> engine_inv (addScheduledTasks cv e ss)"
  by (simp add: addScheduledTasks_def engine_inv_fold_add)

lemma engine_inv_stopAll:
  assumes inv: "engine_inv e"
  shows "engine_inv (stopAllTasks e)"
proof -
  have rt: "\<forall>t \<in> set (cronRunning e). map_of (scheduledTasks e) (idS (job t)) = Some t"
    using inv by (auto simp: engine_inv_def list_all_iff)
  have "filter (\<lambda>t. handle t \<notin> handle ` snd ` set (scheduledTasks e)) (cronRunning e) = []"
  proof -
    have "\<forall>t \<in> set (cronRunning e). handle t \<in> handle ` snd ` set (scheduledTasks e)"
    proof
      fix t assume "t \<in> set (cronRunning e)"
      with rt have "(idS (job t), t) \<in> set (scheduledTasks e)" by (simp add: map_of_SomeD)
      then show "handle t \<in> handle ` snd ` set (scheduledTasks e)" by force
    qed
    then show ?thesis by (simp add: filter_empty_conv)
  qed
  then show ?thesis
    by (simp add: stopAllTasks_def fold_task_stop engine_inv_def)
qed

lemma engine_inv_step: "engine_inv e \<Longrightarrow> engine_inv (engine_step cv op e)"
  by (cases op)
    (simp_all add: engine_inv_senders engine_inv_add engine_inv_remove engine_inv_update
      engine_inv_addScheduledTasks engine_inv_stopAll)

lemma engine_inv_fold_step: "engine_inv e \<Longrightarrow> engine_inv (fold (engine_step cv) ops e)"
  by (induction ops arbitrary: e) (simp_all add: engine_inv_step)

lemma engine_inv_run: "engine_inv (engine_run cv ops)"
  by (simp add: engine_run_def engine_inv_fold_step engine_inv_new)

lemma liveTimers_count:
  assumes inv: "engine_inv e"
  shows "length (liveTimers e i) = (if map_of (scheduledTasks e) i = None then 0 else 1)"
proof -
  have d2: "distinct (map handle (cronRunning e))"
    and tr: "\<forall>(j, t) \<in> set (scheduledTasks e). idS (job t) = j \<and> t \<in> set (cronRunning e)"
    and rt: "\<forall>t \<in> set (cronRunning e). map_of (scheduledTasks e) (idS (job t)) = Some t"
    using inv by (auto simp: engine_inv_def list_all_iff)
  have dR: "distinct (cronRunning e)" using d2 by (simp add: distinct_map)
  show ?thesis
  proof (cases "map_of (scheduledTasks e) i")
    case None
    have "\<forall>t \<in> set (cronRunning e). idS (job t) \<noteq> i"
    proof
      fix t assume "t \<in> set (cronRunning e)"
      with rt have "map_of (scheduledTasks e) (idS (job t)) = Some t" by blast
      with None show "idS (job t) \<noteq> i" by force
    qed
    then have "filter (\<lambda>t. idS (job t) = i) (cronRunning e) = []"
      by (simp add: filter_empty_conv)
    with None show ?thesis by (simp add: liveTimers_def)
  next
    case (Some task)
    then have "(i, task) \<in> set (scheduledTasks e)" by (rule map_of_SomeD)
    with tr have task: "idS (job task) = i" "task \<in> set (cronRunning e)" by blast+
    have "{t. idS (job t) = i} \<inter> set (cronRunning e) = {task}"
    proof (intro equalityI subsetI)
      fix t assume "t \<in> {t. idS (job t) = i} \<inter> set (cronRunning e)"
      then have a: "idS (job t) = i" "t \<in> set (cronRunning e)" by blast+
      from rt a(2) have "map_of (scheduledTasks e) (idS (job t)) = Some t" by blast
      with a(1) Some have "t = task" by simp
      then show "t \<in> {task}" by simp
    next
      fix t assume "t \<in> {task}"
      with task show "t \<in> {t. idS (job t) = i} \<inter> set (cronRunning e)" by simp
    qed
    then have "card ({t. idS (job t) = i} \<inter> set (cronRunning e)) = 1" by simp
    then have "length (filter (\<lambda>t. idS (job t) = i) (cronRunning e)) = 1"
      by (simp only: distinct_length_filter [OF dR])
    with Some show ?thesis by (simp add: liveTimers_def)
  qed
qed

lemma addSchedule_accept_iff:
  "map_of (scheduledTasks (SchedulerService_addSchedule cv e s)) (idS s) \<noteq> None \<longleftrightarrow>
     map_of (scheduledTasks e) (idS s) \<noteq> None \<or>
     ((discordSender e \<or> telegramSender e) \<and> \<not> noValidTargets s \<and> cv (cronExpression s))"
  by (auto simp: SchedulerService_addSchedule_def cron_schedule_def Let_def update_conv')

lemma addSchedule_tracked: 
  "map_of (scheduledTasks e) (idS s) \<noteq> None \<Longrightarrow> SchedulerService_addSchedule cv e s = e"
  by (simp add: SchedulerService_addSchedule_def)

lemma addSchedule_twice:
  "SchedulerService_addSchedule cv (SchedulerService_addSchedule cv e s) s =
   SchedulerService_addSchedule cv e s"
proof (cases "map_of (scheduledTasks (SchedulerService_addSchedule cv e s)) (idS s) = None")
  case False
  then show ?thesis by (simp add: addSchedule_tracked)
next
  case True
  then have "SchedulerService_addSchedule cv e s = e"
    by (auto simp: SchedulerService_addSchedule_def cron_schedule_def Let_def update_conv'
        split: if_splits)
  then show ?thesis by simp
qed

lemma addSchedule_times_after:
  "addSchedule_times n cv (SchedulerService_addSchedule cv e s) s =
   SchedulerService_addSchedule cv e s"
  by (induction n) (simp_all add: addSchedule_twice)

lemma engine_inv_times: "engine_inv e \<Longrightarrow> engine_inv (addSchedule_times n cv e s)"
  by (induction n arbitrary: e) (simp_all add: engine_inv_add)

lemma delete_absent: "map_of T i = None \<Longrightarrow> AList.delete i T = T"
  by (induction T) (auto split: if_splits)

lemma removeSchedule_tasks:
  "scheduledTasks (snd (removeSchedule e i)) = AList.delete i (scheduledTasks e)"
  by (cases "map_of (scheduledTasks e) i")
    (simp_all add: removeSchedule_def task_stop_def delete_absent)

lemma all_enabled_add:
  "all_enabled e \<Longrightarrow> enabled s \<Longrightarrow> all_enabled (SchedulerService_addSchedule cv e s)"
  by (auto simp: all_enabled_def SchedulerService_addSchedule_def cron_schedule_def Let_def
      list_all_iff update_fresh)

lemma all_enabled_remove: "all_enabled e \<Longrightarrow> all_enabled (snd (removeSchedule e i))"
  by (cases "map_of (scheduledTasks e) i")
    (auto simp: all_enabled_def removeSchedule_def task_stop_def list_all_iff AList.delete_eq)

lemma all_enabled_update:
  "all_enabled e \<Longrightarrow> all_enabled (SchedulerService_updateSchedule cv e s)"
  by (simp add: SchedulerService_updateSchedule_def Let_def all_enabled_add all_enabled_remove)

lemma all_enabled_fold_add:
  "all_enabled e \<Longrightarrow> list_all enabled ss \<Longrightarrow>
   all_enabled (fold (\<lambda>schedule e'. SchedulerService_addSchedule cv e' schedule) ss e)"
  by (induction ss arbitrary: e) (simp_all add: all_enabled_add)

lemma all_enabled_addScheduledTasks:
  "all_enabled e \<Longrightarrow> all_enabled (addScheduledTasks cv e ss)"
  by (simp add: addScheduledTasks_def all_enabled_fold_add list_all_iff)

lemma all_enabled_stopAll: "all_enabled e \<Longrightarrow> all_enabled (stopAllTasks e)"
  by (simp add: stopAllTasks_def fold_task_stop all_enabled_def list_all_iff)

lemma all_enabled_step:
  "all_enabled e \<Longrightarrow> (case op of AddSchedule s \<Rightarrow> enabled s | _ \<Rightarrow> True) \<Longrightarrow>
   all_enabled (engine_step cv op e)"
  by (cases op)
    (simp_all add: all_enabled_add all_enabled_remove all_enabled_update
      all_enabled_addScheduledTasks all_enabled_stopAll,
     simp_all add: all_enabled_def setDiscordSender_def setTelegramSender_def)

lemma all_enabled_fold_step:
  "all_enabled e \<Longrightarrow> adds_enabled_only ops \<Longrightarrow> all_enabled (fold (engine_step cv) ops e)"
  by (induction ops arbitrary: e) (simp_all add: adds_enabled_only_def all_enabled_step)

section \<open>Engine: repeated addSchedule\<close>

lemma engine_inv_ready: "engine_inv engine_ready"
  by (simp add: engine_ready_def engine_inv_senders engine_inv_new)

lemma sched_tg_accepted:
  "(discordSender engine_ready \<or> telegramSender engine_ready) \<and> \<not> noValidTargets sched_tg \<and>
   cronValid_sample (cronExpression sched_tg)"
  by (simp add: engine_ready_def setTelegramSender_def setDiscordSender_def
      newSchedulerService_def noValidTargets_def sched_tg_def cronValid_sample_def truthy_def)

text \<open>
  Claim C5, as amended. In every engine state (\<open>engine_inv\<close> holds of all of them):
  when a timer is already filed under the schedule's id, \<^verbatim>\<open>addSchedule\<close> changes
  nothing; calling it \<open>n + 1\<close> times in a row is the same as calling it once; after any
  number of calls at most one live timer fires that id, never two; and after one or more
  calls there is exactly one precisely when a timer for the id existed before or the
  first call was accepted, that is, a sender is registered, the schedule has a usable
  destination and \<^verbatim>\<open>cron.schedule\<close> accepts its expression.
\<close>

theorem SchedulerService_addSchedule_idempotent:
  "engine_inv e \<longrightarrow>
     (map_of (scheduledTasks e) (idS s) \<noteq> None \<longrightarrow> SchedulerService_addSchedule cv e s = e) \<and>
     addSchedule_times (Suc n) cv e s = SchedulerService_addSchedule cv e s \<and>
     length (liveTimers (addSchedule_times n cv e s) (idS s)) \<le> 1 \<and>
     (length (liveTimers (addSchedule_times (Suc n) cv e s) (idS s)) = 1 \<longleftrightarrow>
        map_of (scheduledTasks e) (idS s) \<noteq> None \<or>
        ((discordSender e \<or> telegramSender e) \<and> \<not> noValidTargets s \<and>
         cv (cronExpression s)))"
proof (intro impI conjI)
  assume "map_of (scheduledTasks e) (idS s) \<noteq> None"
  then show "SchedulerService_addSchedule cv e s = e" by (rule addSchedule_tracked)
next
  show once: "addSchedule_times (Suc n) cv e s = SchedulerService_addSchedule cv e s"
    by (simp add: addSchedule_times_after)
next
  assume inv: "engine_inv e"
  have "engine_inv (addSchedule_times n cv e s)" using inv by (rule engine_inv_times)
  then show "length (liveTimers (addSchedule_times n cv e s) (idS s)) \<le> 1"
    by (simp add: liveTimers_count)
next
  assume inv: "engine_inv e"
  have "engine_inv (SchedulerService_addSchedule cv e s)" using inv by (rule engine_inv_add)
  then have "length (liveTimers (SchedulerService_addSchedule cv e s) (idS s)) = 1 \<longleftrightarrow>
      map_of (scheduledTasks (SchedulerService_addSchedule cv e s)) (idS s) \<noteq> None"
    by (simp add: liveTimers_count)
  then show "length (liveTimers (addSchedule_times (Suc n) cv e s) (idS s)) = 1 \<longleftrightarrow>
        map_of (scheduledTasks e) (idS s) \<noteq> None \<or>
        ((discordSender e \<or> telegramSender e) \<and> \<not> noValidTargets s \<and>
         cv (cronExpression s))"
    by (simp only: addSchedule_times.simps(2) addSchedule_times_after addSchedule_accept_iff)
qed

theorem SchedulerService_addSchedule_idempotent_witness:
  "length (liveTimers (addSchedule_times (Suc 2) cronValid_sample engine_ready sched_tg)
      (idS sched_tg)) = 1 \<and>
   addSchedule_times (Suc 2) cronValid_sample engine_ready sched_tg =
     SchedulerService_addSchedule cronValid_sample engine_ready sched_tg"
  using SchedulerService_addSchedule_idempotent [of engine_ready sched_tg cronValid_sample 2]
    engine_inv_ready sched_tg_accepted
  by blast

text \<open>
  The claim as stated, exactly one live timer after any number of calls for an enabled
  schedule, fails where the engine refuses the schedule: an enabled schedule whose
  expression \<^verbatim>\<open>cron.schedule\<close> rejects has no timer after two calls on an engine with
  both senders registered.
\<close>

theorem SchedulerService_addSchedule_not_one:
  "enabled sched_garbage \<and>
   scheduledTasks (addSchedule_times (Suc (Suc 0)) cronValid_sample engine_ready sched_garbage) = [] \<and>
   liveTimers (addSchedule_times (Suc (Suc 0)) cronValid_sample engine_ready sched_garbage)
     (idS sched_garbage) = []"
  by (simp add: sched_garbage_def engine_ready_def setTelegramSender_def setDiscordSender_def
      newSchedulerService_def SchedulerService_addSchedule_def noValidTargets_def truthy_def
      cron_schedule_def cronValid_sample_def liveTimers_def)

section \<open>Engine: updateSchedule\<close>

lemma engine_one_eq:
  "engine_one =
     \<lparr> scheduledTasks = [(idS sched_tg, \<lparr> handle = 0, pattern = ''0 * * * *'', job = sched_tg \<rparr>)],
       discordSender = True, telegramSender = True,
       cronRunning = [\<lparr> handle = 0, pattern = ''0 * * * *'', job = sched_tg \<rparr>],
       cronNext = Suc 0 \<rparr>"
  by (simp add: engine_one_def engine_ready_def setTelegramSender_def setDiscordSender_def
      newSchedulerService_def SchedulerService_addSchedule_def noValidTargets_def truthy_def
      cron_schedule_def cronValid_sample_def sched_tg_def Let_def)

text \<open>
  Claim C6. \<^verbatim>\<open>SchedulerService.updateSchedule\<close> yields the state that the
  specification describes (\<open>update_as_specified\<close>): for an enabled schedule the timer map
  is that of \<^verbatim>\<open>removeSchedule(schedule.id)\<close> followed by \<^verbatim>\<open>addSchedule(schedule)\<close>,
  for a disabled schedule that of \<^verbatim>\<open>removeSchedule(schedule.id)\<close> alone.
\<close>

theorem SchedulerService_updateSchedule_refines:
  "SchedulerService_updateSchedule cv e s = update_as_specified cv e s \<and>
   (enabled s \<longrightarrow>
      scheduledTasks (SchedulerService_updateSchedule cv e s) =
      scheduledTasks (SchedulerService_addSchedule cv (snd (removeSchedule e (idS s))) s)) \<and>
   (\<not> enabled s \<longrightarrow>
      scheduledTasks (SchedulerService_updateSchedule cv e s) =
      scheduledTasks (snd (removeSchedule e (idS s))))"
  by (simp add: SchedulerService_updateSchedule_def update_as_specified_def Let_def)

theorem SchedulerService_updateSchedule_refines_witness:
  "scheduledTasks (SchedulerService_updateSchedule cronValid_sample engine_one payload_tg) = [] \<and>
   scheduledTasks (SchedulerService_updateSchedule cronValid_sample engine_one sched_tg) =
     [(idS sched_tg, \<lparr> handle = Suc 0, pattern = ''0 * * * *'', job = sched_tg \<rparr>)]"
proof -
  have off: "\<not> enabled payload_tg" and on: "enabled sched_tg"
    by (simp_all add: payload_tg_def sched_tg_def)
  have r1: "scheduledTasks (snd (removeSchedule engine_one (idS payload_tg))) = []"
    by (simp add: engine_one_eq removeSchedule_def task_stop_def payload_tg_def sched_tg_def)
  have r2: "scheduledTasks (SchedulerService_addSchedule cronValid_sample
              (snd (removeSchedule engine_one (idS sched_tg))) sched_tg) =
            [(idS sched_tg, \<lparr> handle = Suc 0, pattern = ''0 * * * *'', job = sched_tg \<rparr>)]"
    by (simp add: engine_one_eq removeSchedule_def task_stop_def
        SchedulerService_addSchedule_def noValidTargets_def truthy_def
        cron_schedule_def cronValid_sample_def sched_tg_def Let_def)
  show ?thesis
    using SchedulerService_updateSchedule_refines [of cronValid_sample engine_one payload_tg]
      SchedulerService_updateSchedule_refines [of cronValid_sample engine_one sched_tg]
      off on r1 r2
    by metis
qed

section \<open>Engine: disabled schedules\<close>

lemma ops_sample_run:
  "map fst (scheduledTasks (engine_run cronValid_sample ops_sample)) =
     [idS sched_tg, idS sched_legacy]"
  by (simp add: ops_sample_def engine_run_def addScheduledTasks_def
      SchedulerService_updateSchedule_def removeSchedule_def task_stop_def
      setTelegramSender_def newSchedulerService_def SchedulerService_addSchedule_def
      noValidTargets_def truthy_def cron_schedule_def cronValid_sample_def Let_def
      sched_tg_def sched_paused_def sched_legacy_def)

text \<open>
  Claim C7, as amended. In every state reached from a new engine by the public
  operations, provided that \<^verbatim>\<open>addSchedule\<close> is only ever called with enabled
  schedules, every timer of the task map and every live timer was created for a schedule
  with \<^verbatim>\<open>enabled\<close> true. (\<^verbatim>\<open>addScheduledTasks\<close> and \<^verbatim>\<open>updateSchedule\<close> filter
  on the flag themselves and may be given any schedule.)
\<close>

theorem engine_tracks_enabled_only:
  "adds_enabled_only ops \<longrightarrow>
     (\<forall>(i, t) \<in> set (scheduledTasks (engine_run cv ops)). enabled (job t)) \<and>
     (\<forall>t \<in> set (cronRunning (engine_run cv ops)). enabled (job t))"
proof
  assume a: "adds_enabled_only ops"
  have "all_enabled newSchedulerService"
    by (simp add: all_enabled_def newSchedulerService_def)
  then have "all_enabled (engine_run cv ops)"
    using a by (simp add: engine_run_def all_enabled_fold_step)
  then show "(\<forall>(i, t) \<in> set (scheduledTasks (engine_run cv ops)). enabled (job t)) \<and>
     (\<forall>t \<in> set (cronRunning (engine_run cv ops)). enabled (job t))"
    by (simp add: all_enabled_def list_all_iff)
qed

theorem engine_tracks_enabled_only_witness:
  "map fst (scheduledTasks (engine_run cronValid_sample ops_sample)) =
     [idS sched_tg, idS sched_legacy] \<and>
   list_all (\<lambda>(i, t). enabled (job t)) (scheduledTasks (engine_run cronValid_sample ops_sample)) \<and>
   list_all (\<lambda>t. enabled (job t)) (cronRunning (engine_run cronValid_sample ops_sample))"
proof -
  have "adds_enabled_only ops_sample"
    by (simp add: adds_enabled_only_def ops_sample_def sched_legacy_def)
  with engine_tracks_enabled_only [of ops_sample cronValid_sample] ops_sample_run
  show ?thesis by (simp add: list_all_iff)
qed

text \<open>
  The claim as stated fails through \<^verbatim>\<open>addSchedule\<close>, which does not read the flag:
  given a paused schedule it installs a live timer for it.
\<close>

theorem addSchedule_takes_disabled:
  "\<not> enabled sched_paused \<and>
   scheduledTasks (engine_run cronValid_sample [SetTelegramSender, AddSchedule sched_paused]) =
     [(idS sched_paused, \<lparr> handle = 0, pattern = ''0 * * * *'', job = sched_paused \<rparr>)] \<and>
   cronRunning (engine_run cronValid_sample [SetTelegramSender, AddSchedule sched_paused]) =
     [\<lparr> handle = 0, pattern = ''0 * * * *'', job = sched_paused \<rparr>]"
  by (simp add: engine_run_def setTelegramSender_def newSchedulerService_def
      SchedulerService_addSchedule_def noValidTargets_def truthy_def cron_schedule_def
      cronValid_sample_def sched_paused_def Let_def)

section \<open>Store and engine: definitions without a destination\<close>

lemma addSchedule_appends: "snd (addSchedule clock st s) = st @ [fst (addSchedule clock st s)]"
  by (simp add: addSchedule_def Let_def split: prod.splits)

lemma createUserSchedule_appends:
  "snd (createUserSchedule clock rnd st nm ft cron plat chan guild chat user uname) =
   st @ [fst (createUserSchedule clock rnd st nm ft cron plat chan guild chat user uname)]"
  by (simp add: createUserSchedule_def Let_def addSchedule_appends)

lemma addSchedule_targets:
  "discord (fst (addSchedule clock st s)) = discord s \<and>
   telegram (fst (addSchedule clock st s)) = telegram s"
  by (simp add: addSchedule_def Let_def split: prod.splits)

lemma createUserSchedule_id:
  "idS (fst (createUserSchedule clock rnd st nm ft cron plat chan guild chat user uname)) =
   Platform_toString plat @ ''-'' @ Number_toString (clock 0) @ ''-'' @ Number_toString rnd"
  by (cases plat)
    (simp_all add: createUserSchedule_def Let_def addSchedule_def truthy_def
      Platform_toString_def split: prod.splits)

lemma Number_toString_samples:
  "Number_toString 1700000000000 = ''1700000000000'' \<and> Number_toString 7 = ''7'' \<and>
   Number_toString 123 = ''123''"
  by (simp add: Number_toString.simps digit_char_def)

text \<open>
  Claim C2, as amended. The engine's \<^verbatim>\<open>addSchedule\<close> creates no timer for a
  schedule whose \<^verbatim>\<open>discord.channelId\<close> is empty or absent and whose
  \<^verbatim>\<open>telegram.chatId\<close> is empty or absent: the engine stays as it was. The creation
  path does not reject such a definition: \<^verbatim>\<open>createUserSchedule\<close> always appends the
  record it built to the store, and when the destination of the request's platform is
  absent or empty that record has neither destination block.
\<close>

theorem no_destination_inert:
  "((case discord s of None \<Rightarrow> True | Some d \<Rightarrow> channelId d = []) \<and>
    (case telegram s of None \<Rightarrow> True | Some t \<Rightarrow> chatId t = []) \<longrightarrow>
      SchedulerService_addSchedule cv e s = e) \<and>
   snd (createUserSchedule clock rnd st nm ft cron plat chan guild chat user uname) =
     st @ [fst (createUserSchedule clock rnd st nm ft cron plat chan guild chat user uname)] \<and>
   (plat = Discord \<and> \<not> truthy_opt chan \<or> plat = Telegram \<and> \<not> truthy_opt chat \<longrightarrow>
      discord (fst (createUserSchedule clock rnd st nm ft cron plat chan guild chat user uname)) = None \<and>
      telegram (fst (createUserSchedule clock rnd st nm ft cron plat chan guild chat user uname)) = None)"
proof (intro conjI impI)
  assume a: "(case discord s of None \<Rightarrow> True | Some d \<Rightarrow> channelId d = []) \<and>
    (case telegram s of None \<Rightarrow> True | Some t \<Rightarrow> chatId t = [])"
  then have "noValidTargets s"
    by (simp add: noValidTargets_def truthy_def split: option.splits)
  then show "SchedulerService_addSchedule cv e s = e"
    by (simp add: SchedulerService_addSchedule_def)
next
  show "snd (createUserSchedule clock rnd st nm ft cron plat chan guild chat user uname) =
     st @ [fst (createUserSchedule clock rnd st nm ft cron plat chan guild chat user uname)]"
    by (rule createUserSchedule_appends)
next
  assume "plat = Discord \<and> \<not> truthy_opt chan \<or> plat = Telegram \<and> \<not> truthy_opt chat"
  then show "discord (fst (createUserSchedule clock rnd st nm ft cron plat chan guild chat user uname)) = None"
    by (auto simp: createUserSchedule_def Let_def addSchedule_targets)
next
  assume "plat = Discord \<and> \<not> truthy_opt chan \<or> plat = Telegram \<and> \<not> truthy_opt chat"
  then show "telegram (fst (createUserSchedule clock rnd st nm ft cron plat chan guild chat user uname)) = None"
    by (auto simp: createUserSchedule_def Let_def addSchedule_targets)
qed

theorem no_destination_inert_witness:
  "SchedulerService_addSchedule cronValid_sample engine_ready sched_orphan = engine_ready \<and>
   snd (createUserSchedule clock_sample 7 [sched_tg] ''X'' Nft ''0 * * * *'' Discord (Some [])
          (Some ''g1'') None ''u1'' None) =
     [sched_tg, fst (createUserSchedule clock_sample 7 [sched_tg] ''X'' Nft ''0 * * * *'' Discord
          (Some []) (Some ''g1'') None ''u1'' None)] \<and>
   discord (fst (createUserSchedule clock_sample 7 [sched_tg] ''X'' Nft ''0 * * * *'' Discord
          (Some []) (Some ''g1'') None ''u1'' None)) = None"
proof -
  have a: "(case discord sched_orphan of None \<Rightarrow> True | Some d \<Rightarrow> channelId d = []) \<and>
    (case telegram sched_orphan of None \<Rightarrow> True | Some t \<Rightarrow> chatId t = [])"
    by (simp add: sched_orphan_def)
  have b: "Discord = Discord \<and> \<not> truthy_opt (Some [])"
    by (simp add: truthy_opt_def truthy_def)
  show ?thesis
    using no_destination_inert [of sched_orphan cronValid_sample engine_ready clock_sample 7
        "[sched_tg]" "''X''" Nft "''0 * * * *''" Discord "Some []" "Some ''g1''" None "''u1''" None]
      a b
    by simp
qed

text \<open>
  The claim as stated, that \<^verbatim>\<open>createUserSchedule\<close> rejects a definition without a
  destination before persistence, fails: a Discord request without a channel id is stored,
  with neither block set.
\<close>

theorem createUserSchedule_stores_orphan:
  "createUserSchedule clock_sample 7 [] ''X'' Nft ''0 * * * *'' Discord None None None ''u1'' None =
     (sched_orphan, [sched_orphan]) \<and>
   discord sched_orphan = None \<and> telegram sched_orphan = None"
  by (simp add: createUserSchedule_def Let_def addSchedule_def truthy_def truthy_opt_def
      Platform_toString_def clock_sample_def sched_orphan_def Number_toString_samples)

section \<open>Store: uniqueness of ids\<close>

lemma updateSchedule_ids: "map idS (snd (updateSchedule st u)) = map idS st"
proof (cases "findIndex (\<lambda>s. idS s = idS u) st")
  case None
  then show ?thesis by (simp add: updateSchedule_def)
next
  case (Some k)
  from findIndex_Some [OF Some] have k: "k < length st" "idS (st ! k) = idS u" by simp_all
  have "map idS (st[k := u\<lparr>createdAt := createdAt (st ! k), createdBy := createdBy (st ! k)\<rparr>]) =
        (map idS st)[k := idS u]"
    by (simp add: map_update)
  also have "\<dots> = map idS st"
    using k by (metis list_update_id nth_map)
  finally show ?thesis using Some by (simp add: updateSchedule_def Let_def)
qed

lemma store3_ids:
  "map idS store3 = [''discord-1700000000000-7'', ''telegram-1700000000000-123'', ''legacy'']"
  by (simp add: store3_def sched_dc_def sched_tg_def sched_legacy_def)

text \<open>
  Claim C8, as amended. When the ids of the store are unique, they are still unique after
  \<^verbatim>\<open>updateSchedule\<close> and after \<^verbatim>\<open>deleteSchedule\<close>, and \<^verbatim>\<open>deleteSchedule\<close>
  leaves no record with the id it was given. After \<^verbatim>\<open>addSchedule\<close> they are unique
  exactly when the id of the added record was not in the store, and after
  \<^verbatim>\<open>createUserSchedule\<close> exactly when the generated id, platform, timestamp and random
  suffix joined by dashes, was not in the store; neither operation checks this, and
  nothing records the ids that were deleted.
\<close>

theorem store_ids_stay_unique:
  "distinct (map idS st) \<longrightarrow>
     distinct (map idS (snd (updateSchedule st u))) \<and>
     distinct (map idS (snd (deleteSchedule st i))) \<and>
     i \<notin> set (map idS (snd (deleteSchedule st i))) \<and>
     (distinct (map idS (snd (addSchedule clock st s))) \<longleftrightarrow>
        idS (fst (addSchedule clock st s)) \<notin> set (map idS st)) \<and>
     (distinct (map idS (snd (createUserSchedule clock rnd st nm ft cron plat chan guild chat
                               user uname))) \<longleftrightarrow>
        Platform_toString plat @ ''-'' @ Number_toString (clock 0) @ ''-'' @ Number_toString rnd
          \<notin> set (map idS st))"
proof (intro impI conjI)
  assume d: "distinct (map idS st)"
  show "distinct (map idS (snd (updateSchedule st u)))"
    using d by (simp add: updateSchedule_ids)
  show "distinct (map idS (snd (deleteSchedule st i)))"
    using d by (simp add: deleteSchedule_def Let_def distinct_map_filter)
  show "i \<notin> set (map idS (snd (deleteSchedule st i)))"
    by (auto simp: deleteSchedule_def Let_def)
  have "distinct (map idS (st @ [fst (addSchedule clock st s)])) \<longleftrightarrow>
        idS (fst (addSchedule clock st s)) \<notin> set (map idS st)"
    using d by auto
  then show "distinct (map idS (snd (addSchedule clock st s))) \<longleftrightarrow>
        idS (fst (addSchedule clock st s)) \<notin> set (map idS st)"
    by (simp only: addSchedule_appends [symmetric])
  have "distinct (map idS (st @ [fst (createUserSchedule clock rnd st nm ft cron plat chan guild
            chat user uname)])) \<longleftrightarrow>
        idS (fst (createUserSchedule clock rnd st nm ft cron plat chan guild chat user uname))
          \<notin> set (map idS st)"
    using d by auto
  then show "distinct (map idS (snd (createUserSchedule clock rnd st nm ft cron plat chan guild
                 chat user uname))) \<longleftrightarrow>
        Platform_toString plat @ ''-'' @ Number_toString (clock 0) @ ''-'' @ Number_toString rnd
          \<notin> set (map idS st)"
    by (simp only: createUserSchedule_appends [symmetric] createUserSchedule_id)
qed

theorem store_ids_stay_unique_witness:
  "distinct (map idS (snd (updateSchedule store3 payload_tg))) \<and>
   ''legacy'' \<notin> set (map idS (snd (deleteSchedule store3 ''legacy''))) \<and>
   distinct (map idS (snd (createUserSchedule clock_sample 8 store3 ''Z'' Nft ''0 * * * *''
      Discord (Some ''c9'') None None ''u3'' None))) \<and>
   \<not> distinct (map idS (snd (createUserSchedule clock_sample 7 store3 ''Z'' Nft ''0 * * * *''
      Discord (Some ''c9'') None None ''u3'' None)))"
proof -
  have d: "distinct (map idS store3)" by (simp add: store3_ids)
  have n8: "Number_toString 8 = ''8''" by (simp add: Number_toString.simps digit_char_def)
  have fresh: "Platform_toString Discord @ ''-'' @ Number_toString (clock_sample 0) @ ''-'' @
      Number_toString 8 \<notin> set (map idS store3)"
    by (simp add: store3_ids Platform_toString_def clock_sample_def Number_toString_samples n8)
  have used: "Platform_toString Discord @ ''-'' @ Number_toString (clock_sample 0) @ ''-'' @
      Number_toString 7 \<in> set (map idS store3)"
    by (simp add: store3_ids Platform_toString_def clock_sample_def Number_toString_samples)
  show ?thesis
    using store_ids_stay_unique [of store3 payload_tg "''legacy''" clock_sample sched_tg 8
        "''Z''" Nft "''0 * * * *''" Discord "Some ''c9''" None None "''u3''" None]
      store_ids_stay_unique [of store3 payload_tg "''legacy''" clock_sample sched_tg 7
        "''Z''" Nft "''0 * * * *''" Discord "Some ''c9''" None None "''u3''" None]
      d fresh used
    by blast
qed

text \<open>
  The claim as stated fails on both counts: two requests served in the same millisecond
  with the same random suffix get the same id, and \<^verbatim>\<open>addSchedule\<close> stores a record
  under an id that \<^verbatim>\<open>deleteSchedule\<close> removed before.
\<close>

theorem store_ids_collide:
  "map idS (snd (createUserSchedule clock_sample 7
      (snd (createUserSchedule clock_sample 7 [] ''A'' Nft ''0 * * * *'' Telegram None None
              (Some ''123'') ''u1'' None))
      ''B'' Artist ''0 12 * * *'' Telegram None None (Some ''456'') ''u2'' None)) =
     [''telegram-1700000000000-7'', ''telegram-1700000000000-7''] \<and>
   map idS (snd (deleteSchedule store3 ''legacy'')) =
     [''discord-1700000000000-7'', ''telegram-1700000000000-123''] \<and>
   map idS (snd (addSchedule clock_sample (snd (deleteSchedule store3 ''legacy'')) sched_legacy)) =
     [''discord-1700000000000-7'', ''telegram-1700000000000-123'', ''legacy'']"
  by (simp add: createUserSchedule_def Let_def addSchedule_def truthy_def truthy_opt_def
      Platform_toString_def clock_sample_def Number_toString_samples deleteSchedule_def
      store3_def sched_dc_def sched_tg_def sched_legacy_def)

section \<open>Command layer: validation of the cron expression\<close>

lemma parse_garbage:
  "parseCommandArguments ''/schedule_create artist garbage'' =
     [''/schedule_create'', ''artist'', ''garbage'']"
  by (simp add: parseCommandArguments.simps isSpace_def)

lemma parse_quoted:
  "parseCommandArguments (''/schedule_create nft '' @ [CHR 0x22] @ ''0 8 * * 1-5'' @ [CHR 0x22] @
      '' '' @ [CHR 0x22] @ ''Weekday Morning'' @ [CHR 0x22]) =
     [''/schedule_create'', ''nft'', ''0 8 * * 1-5'', ''Weekday Morning'']"
  by (simp add: parseCommandArguments.simps isSpace_def)

lemma freq_samples:
  "frequencyToCron ''garbage'' = ''garbage'' \<and> frequencyToCron ''Daily'' = ''0 12 * * *'' \<and>
   frequencyToCron ''every 15 minutes'' = ''*/15 * * * *'' \<and>
   frequencyToCron ''every 6 hours'' = ''0 */6 * * *'' \<and>
   frequencyToCron ''every 60 minutes'' = ''every 60 minutes''"
  by (simp add: frequencyToCron_def toLowerCase_def everyMatch_def isSpace_def isDigit_def
      parseInt_def Number_toString.simps digit_char_def Let_def)

lemma handleCreateSchedule_never_rejects_returned:
  assumes "\<And>c. validate c \<noteq> Throws"
  shows "fst (handleCreateSchedule validate cv clock rnd st e ctx) \<noteq> InvalidScheduleFormat"
proof -
  have v: "\<And>c. (case validate c of Returns b \<Rightarrow> True | Throws \<Rightarrow> False)"
    using assms by (simp split: outcome.splits)
  show ?thesis
    by (simp add: handleCreateSchedule_def Let_def v split: option.splits prod.splits)
qed

lemma handleCreateSchedule_throw_keeps_store:
  assumes "\<And>c. validate c = Throws"
  shows "snd (handleCreateSchedule validate cv clock rnd st e ctx) = (st, e)"
  using assms by (simp add: handleCreateSchedule_def Let_def split: option.splits prod.splits)

lemma handleCreateSchedule_persists:
  assumes v: "\<And>c. validate c \<noteq> Throws"
    and chat: "ctx_chat ctx = Some chat" and u: "ctx_from ctx = Some u"
    and args: "drop 1 (parseCommandArguments (case ctx_message ctx of Some t \<Rightarrow> t | None \<Rightarrow> [])) =
               a # rest"
    and ty: "toLowerCase a = ''artist'' \<or> toLowerCase a = ''nft''"
  shows "\<exists>r d. fst (handleCreateSchedule validate cv clock rnd st e ctx) = Created r d \<and>
           fst (snd (handleCreateSchedule validate cv clock rnd st e ctx)) = st @ [r]"
proof -
  have ok: "\<And>c. (case validate c of Returns b \<Rightarrow> True | Throws \<Rightarrow> False)"
    using v by (simp split: outcome.splits)
  from ty show ?thesis
  proof
    assume "toLowerCase a = ''artist''"
    then show ?thesis
      unfolding handleCreateSchedule_def Let_def args
      by (simp add: ok chat u split_beta createUserSchedule_appends)
  next
    assume "toLowerCase a = ''nft''"
    then show ?thesis
      unfolding handleCreateSchedule_def Let_def args
      by (simp add: ok chat u split_beta createUserSchedule_appends)
  qed
qed

lemma Number_toString_42: "Number_toString 42 = ''42''"
  by (simp add: Number_toString.simps digit_char_def)

text \<open>
  Claim C1 says that the create handler rejects every invalid cron expression with a
  validation message before \<^verbatim>\<open>createUserSchedule\<close> runs, and that the store is not
  changed. The code does not do so. node-cron's \<^verbatim>\<open>validate\<close> reports an invalid
  expression by returning \<^verbatim>\<open>false\<close>; the handler discards the value and rejects only
  on an exception, so with a validator that never throws every well-formed request of a
  known user in a known chat is stored (the lemmas above). At the command
  \<^verbatim>\<open>/schedule_create artist garbage\<close>, with a validator that returns false for
  \<open>garbage\<close>, the handler answers with the confirmation and the store holds a new enabled
  schedule with the expression \<open>garbage\<close>; the engine then refuses it, so it never
  fires.
\<close>

theorem handleCreateSchedule_stores_invalid_cron:
  "cronValid_sample ''garbage'' = False \<and>
   handleCreateSchedule (\<lambda>c. Returns (cronValid_sample c)) cronValid_sample clock_sample 123 []
       engine_ready ctx_garbage =
     (Created sched_garbage ''garbage'', [sched_garbage], engine_ready)"
proof -
  have freq: "frequencyToCron ''garbage'' = ''garbage''"
    by (simp add: frequencyToCron_def toLowerCase_def everyMatch_def Let_def)
  have low: "toLowerCase ''artist'' = ''artist''"
    by (simp add: toLowerCase_def)
  have created: "createUserSchedule clock_sample 123 [] ''Random Artist'' Artist ''garbage''
      Telegram None None (Some ''123'') ''42'' (Some ''ann'') = (sched_garbage, [sched_garbage])"
    by (simp add: createUserSchedule_def Let_def addSchedule_def truthy_def truthy_opt_def
        Platform_toString_def clock_sample_def sched_garbage_def Number_toString_samples)
  have refused: "SchedulerService_addSchedule cronValid_sample engine_ready sched_garbage =
      engine_ready"
    by (simp add: SchedulerService_addSchedule_def engine_ready_def setTelegramSender_def
        setDiscordSender_def newSchedulerService_def noValidTargets_def truthy_def
        cron_schedule_def cronValid_sample_def sched_garbage_def)
  have ids: "Int_toString 123 = ''123''" "Int_toString 42 = ''42''"
    by (simp_all add: Int_toString_def Number_toString_samples Number_toString_42)
  have "handleCreateSchedule (\<lambda>c. Returns (cronValid_sample c)) cronValid_sample clock_sample 123 []
       engine_ready ctx_garbage =
     (Created sched_garbage ''garbage'', [sched_garbage], engine_ready)"
    by (simp add: handleCreateSchedule_def ctx_garbage_def parse_garbage low freq ids created
        refused truthy_opt_def truthy_def cronDescription_def Let_def)
  then show ?thesis by (simp add: cronValid_sample_def)
qed

end
